theory Spec2Isabelle
  imports Complex_Main
begin

section \<open>JavaScript values\<close>

text \<open>
  A JavaScript string is a sequence of UTF-16 code units; it is modelled as the list of
  its code units. \<open>ascii\<close> writes an ASCII literal.
\<close>

type_synonym js_string = "nat list"

definition ascii :: "string \<Rightarrow> js_string" where
  "ascii s = map of_char s"

text \<open>
  A JavaScript \<open>number\<close> is a double. The finite ones are modelled by the rationals
  they stand for, with exact arithmetic (no rounding to 53 bits and no overflow to
  Infinity; the two zeros are one); \<open>NaN\<close> and the two infinities are values of their
  own, since \<open>Math.max()\<close> of no argument and \<open>Number\<close> of a non-numeric value
  produce them.
\<close>

datatype jsnum = NaN | NegInf | Fin rat | PosInf

fun js_max2 :: "jsnum \<Rightarrow> jsnum \<Rightarrow> jsnum" where
  "js_max2 NaN b = NaN"
| "js_max2 a NaN = NaN"
| "js_max2 PosInf b = PosInf"
| "js_max2 a PosInf = PosInf"
| "js_max2 NegInf b = b"
| "js_max2 a NegInf = a"
| "js_max2 (Fin a) (Fin b) = Fin (max a b)"

fun js_min2 :: "jsnum \<Rightarrow> jsnum \<Rightarrow> jsnum" where
  "js_min2 NaN b = NaN"
| "js_min2 a NaN = NaN"
| "js_min2 NegInf b = NegInf"
| "js_min2 a NegInf = NegInf"
| "js_min2 PosInf b = b"
| "js_min2 a PosInf = a"
| "js_min2 (Fin a) (Fin b) = Fin (min a b)"

text \<open>\<open>Math.max(...xs)\<close>: \<open>-Infinity\<close> for no argument, \<open>NaN\<close> as soon as one is.\<close>

definition Math_max :: "jsnum list \<Rightarrow> jsnum" where
  "Math_max xs = foldl js_max2 NegInf xs"

fun js_plus :: "jsnum \<Rightarrow> jsnum \<Rightarrow> jsnum" where
  "js_plus NaN b = NaN"
| "js_plus a NaN = NaN"
| "js_plus PosInf NegInf = NaN"
| "js_plus NegInf PosInf = NaN"
| "js_plus PosInf b = PosInf"
| "js_plus a PosInf = PosInf"
| "js_plus NegInf b = NegInf"
| "js_plus a NegInf = NegInf"
| "js_plus (Fin a) (Fin b) = Fin (a + b)"

text \<open>\<open>lo \<le> n \<le> hi\<close> as JavaScript compares: false for \<open>NaN\<close>.\<close>

fun in_range :: "rat \<Rightarrow> rat \<Rightarrow> jsnum \<Rightarrow> bool" where
  "in_range lo hi (Fin q) = (lo \<le> q \<and> q \<le> hi)"
| "in_range lo hi NaN = False"
| "in_range lo hi NegInf = False"
| "in_range lo hi PosInf = False"

text \<open>\<open>Array.from(new Set(xs))\<close>: the distinct elements in the order of first insertion.\<close>

fun Array_from_Set :: "'a list \<Rightarrow> 'a list" where
  "Array_from_Set [] = []"
| "Array_from_Set (x # xs) = x # Array_from_Set (filter (\<lambda>y. y \<noteq> x) xs)"

text \<open>
  \<open>xs.find(p)\<close> returns a reference to the first element satisfying \<open>p\<close>, and the
  code assigns to its fields: \<open>update_first\<close> is that assignment on the list.
\<close>

fun update_first :: "('a \<Rightarrow> bool) \<Rightarrow> ('a \<Rightarrow> 'a) \<Rightarrow> 'a list \<Rightarrow> 'a list" where
  "update_first p f [] = []"
| "update_first p f (x # xs) = (if p x then f x # xs else x # update_first p f xs)"

text \<open>The truthiness of an optional string: \<open>undefined\<close> and \<open>""\<close> are falsy.\<close>

fun truthy :: "js_string option \<Rightarrow> bool" where
  "truthy None = False"
| "truthy (Some s) = (s \<noteq> [])"

section \<open>Domain types (domain/types.ts)\<close>

text \<open>
  Timestamps: \<open>Date.now()\<close> is an integer number of milliseconds; the ISO strings the
  store keeps (\<open>toISOString\<close>, read back by \<open>new Date(s).getTime()\<close>) are modelled
  by that integer. The clock is an argument \<open>now\<close> of every operation that reads it;
  the reads within one synchronous call are taken at the same instant.
\<close>

record Party =
  p_side :: js_string
  p_name :: "js_string option"
  p_baseline_state :: "js_string option"

datatype CaseStatus =
  pending_acceptance | draft | pending_judgement | decided | appealed | expired | closed

datatype Acceptance = acc_pending | acc_accepted | acc_rejected | acc_expired

record Case =
  c_id :: js_string
  c_topic :: js_string
  c_relationship_context :: "js_string option"
  c_parties :: "Party list"
  c_status :: CaseStatus
  c_created_at :: int
  c_owner_id :: "js_string option"
  c_participant_ids :: "js_string list option"
  c_invited_user_id :: "js_string option"
  c_expires_at :: "int option"
  c_acceptance :: "Acceptance option"

datatype HearingStatus = submitted | judged

record Hearing =
  h_id :: js_string
  h_case_id :: js_string
  h_round :: jsnum
  h_status :: HearingStatus
  h_created_at :: int

record Statement =
  s_hearing_id :: js_string
  s_side :: js_string
  s_narrative :: js_string
  s_feelings :: "js_string option"
  s_context :: "js_string option"
  s_requests :: "js_string list option"
  s_created_at :: int

record Evidence =
  e_id :: js_string
  e_hearing_id :: js_string
  e_side :: js_string
  e_type :: js_string
  e_title :: "js_string option"
  e_content_or_url :: js_string
  e_notes :: "js_string option"
  e_created_at :: int

text \<open>
  What \<open>JSON.parse\<close> returns. An object is the list of its own properties, each key
  once. TypeScript's types are erased when the program runs, so the text fields of a
  verdict built from a parsed response hold whatever value the response had there.
\<close>

datatype json =
  JNull | JBool bool | JNum jsnum | JStr js_string | JArr "json list"
| JObj "(js_string \<times> json) list"

record Score =
  partyA_pct :: jsnum
  partyB_pct :: jsnum
  confidence :: jsnum

record Reasoning =
  facts :: json
  fairness_checks :: json
  emotion_considerations :: json
  assumptions :: json
  missing_info :: json

record Advice =
  together :: json
  forA :: json
  forB :: json

record Verdict =
  v_hearing_id :: js_string
  v_score :: Score
  v_summary :: json
  v_reasoning :: Reasoning
  v_advice :: Advice
  v_raw_agent_payload :: "json option"
  v_created_at :: int

section \<open>The store (store/fileStore.ts)\<close>

text \<open>
  The state is the cached \<open>DataShape\<close> that every function reads through
  \<open>getData()\<close> and mutates in place; \<open>save\<close> writes that same object to disk and
  changes nothing in it. The users are data that the case lifecycle reads and never
  changes; signing up, friends and chat messages are left out. A function that mutates the data returns the new data; one that throws returns
  \<open>Inl\<close> of the error, with the data as the throw leaves them. \<open>uuid()\<close> is an
  argument: the identifier the call draws.
\<close>

record User =
  u_id :: js_string
  u_email :: js_string
  u_name :: js_string
  u_password :: js_string
  u_friends :: "js_string list"

record DataShape =
  users :: "User list"
  cases :: "Case list"
  hearings :: "Hearing list"
  statements :: "Statement list"
  evidence :: "Evidence list"
  verdicts :: "Verdict list"

datatype StoreError = case_not_found | case_rejected | case_expired | forbidden

definition findUserByEmail :: "js_string \<Rightarrow> DataShape \<Rightarrow> User option" where
  "findUserByEmail email data = find (\<lambda>u. u_email u = email) (users data)"

record CreateCaseInput =
  ownerId :: js_string
  topic :: js_string
  relationship_context :: "js_string option"
  parties :: "Party list option"
  participantIds :: "js_string list option"
  invitedUserId :: "js_string option"

definition default_parties :: "Party list" where
  "default_parties =
     [\<lparr>p_side = ascii ''A'', p_name = None, p_baseline_state = None\<rparr>,
      \<lparr>p_side = ascii ''B'', p_name = None, p_baseline_state = None\<rparr>]"

definition createCase :: "CreateCaseInput \<Rightarrow> js_string \<Rightarrow> int \<Rightarrow> DataShape \<Rightarrow> Case \<times> DataShape" where
  "createCase input new_id now data =
     (let ps = (case parties input of
                  Some ps \<Rightarrow> if length ps > 0 then ps else default_parties
                | None \<Rightarrow> default_parties);
          participants = (case participantIds input of
                  Some ids \<Rightarrow> if length ids > 0 then Array_from_Set (ownerId input # ids)
                              else [ownerId input]
                | None \<Rightarrow> [ownerId input]);
          expiresAt = (if truthy (invitedUserId input)
                       then Some (now + 24 * 60 * 60 * 1000) else None);
          newCase = \<lparr>c_id = new_id,
                     c_topic = topic input,
                     c_relationship_context = relationship_context input,
                     c_parties = ps,
                     c_status = (if truthy (invitedUserId input) then pending_acceptance else draft),
                     c_created_at = now,
                     c_owner_id = Some (ownerId input),
                     c_participant_ids = Some participants,
                     c_invited_user_id = invitedUserId input,
                     c_expires_at = expiresAt,
                     c_acceptance = Some (if truthy (invitedUserId input) then acc_pending else acc_accepted)\<rparr>
      in (newCase, data\<lparr>cases := cases data @ [newCase]\<rparr>))"

definition is_past :: "int option \<Rightarrow> int \<Rightarrow> bool" where
  \<comment> \<open>\<open>c.expires_at && new Date(c.expires_at).getTime() < now\<close>\<close>
  "is_past expires_at now = (case expires_at of Some e \<Rightarrow> e < now | None \<Rightarrow> False)"

definition expire :: "Case \<Rightarrow> Case" where
  "expire c = c\<lparr>c_acceptance := Some acc_expired, c_status := expired\<rparr>"

definition expireInvites :: "int \<Rightarrow> DataShape \<Rightarrow> DataShape" where
  "expireInvites now data =
     data\<lparr>cases := map (\<lambda>c. if c_acceptance c = Some acc_pending \<and> is_past (c_expires_at c) now
                             then expire c else c) (cases data)\<rparr>"

definition includes_id :: "js_string list option \<Rightarrow> js_string \<Rightarrow> bool" where
  \<comment> \<open>\<open>ids?.includes(x)\<close>, read as a condition\<close>
  "includes_id ids x = (case ids of Some xs \<Rightarrow> x \<in> set xs | None \<Rightarrow> False)"

definition listCasesByUser :: "js_string \<Rightarrow> int \<Rightarrow> DataShape \<Rightarrow> Case list \<times> DataShape" where
  "listCasesByUser userId now data =
     (let data' = expireInvites now data
      in (filter (\<lambda>c. includes_id (c_participant_ids c) userId) (cases data'), data'))"

definition findCase :: "js_string \<Rightarrow> DataShape \<Rightarrow> Case option" where
  \<comment> \<open>\<open>data.cases.find((c) => c.id === caseId)\<close>\<close>
  "findCase caseId data = find (\<lambda>c. c_id c = caseId) (cases data)"

definition getCase :: "js_string \<Rightarrow> int \<Rightarrow> DataShape \<Rightarrow> Case option \<times> DataShape" where
  "getCase caseId now data =
     (let data' = expireInvites now data in (findCase caseId data', data'))"

definition acceptCase ::
  "js_string \<Rightarrow> js_string \<Rightarrow> int \<Rightarrow> DataShape \<Rightarrow> (StoreError + Case) \<times> DataShape" where
  "acceptCase caseId userId now data =
     (case findCase caseId data of
        None \<Rightarrow> (Inl case_not_found, data)
      | Some found \<Rightarrow>
          if c_acceptance found = Some acc_rejected then (Inl case_rejected, data)
          else if c_acceptance found = Some acc_accepted then (Inr found, data)
          else if is_past (c_expires_at found) now then
            (Inl case_expired,
             data\<lparr>cases := update_first (\<lambda>c. c_id c = caseId) expire (cases data)\<rparr>)
          else if c_invited_user_id found \<noteq> Some userId then (Inl forbidden, data)
          else
            (let found' = found\<lparr>c_acceptance := Some acc_accepted,
                                c_status := draft,
                                c_participant_ids := Some (Array_from_Set
                                  ((case c_participant_ids found of Some ids \<Rightarrow> ids | None \<Rightarrow> [])
                                   @ [userId]))\<rparr>
             in (Inr found',
                 data\<lparr>cases := update_first (\<lambda>c. c_id c = caseId) (\<lambda>c. found') (cases data)\<rparr>)))"

definition rejectCase ::
  "js_string \<Rightarrow> js_string \<Rightarrow> DataShape \<Rightarrow> (StoreError + Case) \<times> DataShape" where
  "rejectCase caseId userId data =
     (case findCase caseId data of
        None \<Rightarrow> (Inl case_not_found, data)
      | Some found \<Rightarrow>
          if c_invited_user_id found \<noteq> Some userId then (Inl forbidden, data)
          else
            (let found' = found\<lparr>c_acceptance := Some acc_rejected, c_status := closed\<rparr>
             in (Inr found',
                 data\<lparr>cases := update_first (\<lambda>c. c_id c = caseId) (\<lambda>c. found') (cases data)\<rparr>)))"

definition createHearing ::
  "js_string \<Rightarrow> jsnum \<Rightarrow> js_string \<Rightarrow> int \<Rightarrow> DataShape \<Rightarrow> Hearing \<times> DataShape" where
  "createHearing caseId rnd new_id now data =
     (let hearing = \<lparr>h_id = new_id, h_case_id = caseId, h_round = rnd,
                     h_status = submitted, h_created_at = now\<rparr>
      in (hearing,
          data\<lparr>hearings := hearings data @ [hearing],
               cases := update_first (\<lambda>c. c_id c = caseId)
                          (\<lambda>c. c\<lparr>c_status := pending_judgement\<rparr>) (cases data)\<rparr>))"

definition saveStatements :: "js_string \<Rightarrow> Statement list \<Rightarrow> DataShape \<Rightarrow> DataShape" where
  "saveStatements hearingId sts data =
     data\<lparr>statements := filter (\<lambda>s. s_hearing_id s \<noteq> hearingId) (statements data) @ sts\<rparr>"

definition saveEvidence :: "js_string \<Rightarrow> Evidence list \<Rightarrow> DataShape \<Rightarrow> DataShape" where
  "saveEvidence hearingId evs data =
     data\<lparr>evidence := filter (\<lambda>e. e_hearing_id e \<noteq> hearingId) (evidence data) @ evs\<rparr>"

definition getHearing :: "js_string \<Rightarrow> DataShape \<Rightarrow> Hearing option" where
  "getHearing hearingId data = find (\<lambda>h. h_id h = hearingId) (hearings data)"

definition listHearings :: "js_string \<Rightarrow> DataShape \<Rightarrow> Hearing list" where
  "listHearings caseId data = filter (\<lambda>h. h_case_id h = caseId) (hearings data)"

definition getStatements :: "js_string \<Rightarrow> DataShape \<Rightarrow> Statement list" where
  "getStatements hearingId data = filter (\<lambda>s. s_hearing_id s = hearingId) (statements data)"

definition getEvidence :: "js_string \<Rightarrow> DataShape \<Rightarrow> Evidence list" where
  "getEvidence hearingId data = filter (\<lambda>e. e_hearing_id e = hearingId) (evidence data)"

definition saveVerdict :: "Verdict \<Rightarrow> DataShape \<Rightarrow> DataShape" where
  "saveVerdict verdict data =
     (let vs = filter (\<lambda>v. v_hearing_id v \<noteq> v_hearing_id verdict) (verdicts data) @ [verdict];
          hearing = find (\<lambda>h. h_id h = v_hearing_id verdict) (hearings data);
          hs = update_first (\<lambda>h. h_id h = v_hearing_id verdict)
                 (\<lambda>h. h\<lparr>h_status := judged\<rparr>) (hearings data);
          cs = (case hearing of
                  None \<Rightarrow> cases data
                | Some h \<Rightarrow> update_first (\<lambda>c. c_id c = h_case_id h)
                             (\<lambda>c. c\<lparr>c_status := decided\<rparr>) (cases data))
      in data\<lparr>verdicts := vs, hearings := hs, cases := cs\<rparr>)"

definition getVerdict :: "js_string \<Rightarrow> DataShape \<Rightarrow> Verdict option" where
  "getVerdict hearingId data = find (\<lambda>v. v_hearing_id v = hearingId) (verdicts data)"

section \<open>The request handlers (http/server.ts)\<close>

text \<open>
  A handler takes the acting user that \<open>authMiddleware\<close> has put on the request, the
  path parameters, the body, the identifiers and the clock value it draws, and the data;
  it returns the response, \<open>Inl\<close> of the error or \<open>Inr\<close> of the payload, with the
  data as it leaves them. A body is given with the types its schema asks for, so what a
  schema can still reject is a value of the right type: an empty string, a side or an
  evidence type outside the literals, a round that is not a positive integer, a string
  that is no e-mail address. \<open>z.string().email()\<close> is the library's: the predicate
  \<open>is_email\<close> is an argument.
\<close>

datatype HttpError =
  ValidationError | CaseNotAccepted | Forbidden | CaseNotFound | HearingNotFound
| VerdictNotFound | FriendNotFound | Expired | AlreadyRejected | JudgeFailed
| ReferenceError

fun status_code :: "HttpError \<Rightarrow> nat" where
  "status_code ValidationError = 400"
| "status_code CaseNotAccepted = 400"
| "status_code Forbidden = 403"
| "status_code CaseNotFound = 404"
| "status_code HearingNotFound = 404"
| "status_code VerdictNotFound = 404"
| "status_code FriendNotFound = 404"
| "status_code Expired = 410"
| "status_code AlreadyRejected = 409"
| "status_code JudgeFailed = 500"
| "status_code ReferenceError = 500"

record StatementInput =
  si_side :: js_string
  si_narrative :: js_string
  si_feelings :: "js_string option"
  si_context :: "js_string option"
  si_requests :: "js_string list option"

record EvidenceInput =
  ei_side :: js_string
  ei_type :: js_string
  ei_title :: "js_string option"
  ei_content_or_url :: js_string
  ei_notes :: "js_string option"

definition is_side :: "js_string \<Rightarrow> bool" where
  "is_side s = (s = ascii ''A'' \<or> s = ascii ''B'')"

definition partySchema :: "Party \<Rightarrow> bool" where
  "partySchema p = is_side (p_side p)"

definition statementSchema :: "StatementInput \<Rightarrow> bool" where
  "statementSchema s = (is_side (si_side s) \<and> length (si_narrative s) \<ge> 1)"

definition evidenceSchema :: "EvidenceInput \<Rightarrow> bool" where
  "evidenceSchema e =
     (is_side (ei_side e)
      \<and> (ei_type e = ascii ''text'' \<or> ei_type e = ascii ''link''
         \<or> ei_type e = ascii ''image'' \<or> ei_type e = ascii ''other'')
      \<and> length (ei_content_or_url e) \<ge> 1)"

definition optional :: "('a \<Rightarrow> bool) \<Rightarrow> 'a option \<Rightarrow> bool" where
  "optional ok v = (case v of None \<Rightarrow> True | Some x \<Rightarrow> ok x)"

definition to_statement :: "js_string \<Rightarrow> int \<Rightarrow> StatementInput \<Rightarrow> Statement" where
  \<comment> \<open>\<open>{ ...s, hearing_id: hearing.id, created_at: now }\<close>\<close>
  "to_statement hearingId now s =
     \<lparr>s_hearing_id = hearingId, s_side = si_side s, s_narrative = si_narrative s,
      s_feelings = si_feelings s, s_context = si_context s, s_requests = si_requests s,
      s_created_at = now\<rparr>"

definition to_evidence :: "js_string \<Rightarrow> int \<Rightarrow> js_string \<times> EvidenceInput \<Rightarrow> Evidence" where
  \<comment> \<open>\<open>{ ...e, id: randomUUID(), hearing_id: hearing.id, created_at: now }\<close>\<close>
  "to_evidence hearingId now ie =
     (case ie of (i, e) \<Rightarrow>
        \<lparr>e_id = i, e_hearing_id = hearingId, e_side = ei_side e, e_type = ei_type e,
         e_title = ei_title e, e_content_or_url = ei_content_or_url e, e_notes = ei_notes e,
         e_created_at = now\<rparr>)"

definition with_ids :: "(nat \<Rightarrow> js_string) \<Rightarrow> 'a list \<Rightarrow> (js_string \<times> 'a) list" where
  \<comment> \<open>the \<open>i\<close>-th \<open>randomUUID()\<close> of the call goes to the \<open>i\<close>-th element\<close>
  "with_ids eids xs = map (\<lambda>(i, x). (eids i, x)) (enumerate 0 xs)"

definition assertParticipant :: "js_string \<Rightarrow> Case \<Rightarrow> bool" where
  "assertParticipant userId caseItem = includes_id (c_participant_ids caseItem) userId"

subsection \<open>POST /cases\<close>

record CaseBody =
  b_topic :: js_string
  b_relationship_context :: "js_string option"
  b_parties :: "Party list option"
  b_friend_email :: "js_string option"

definition caseSchema :: "(js_string \<Rightarrow> bool) \<Rightarrow> CaseBody \<Rightarrow> bool" where
  "caseSchema is_email b =
     (length (b_topic b) \<ge> 1
      \<and> optional (list_all partySchema) (b_parties b)
      \<and> optional is_email (b_friend_email b))"

definition post_cases ::
  "(js_string \<Rightarrow> bool) \<Rightarrow> js_string \<Rightarrow> CaseBody \<Rightarrow> js_string \<Rightarrow> int \<Rightarrow> DataShape
     \<Rightarrow> (HttpError + Case) \<times> DataShape" where
  "post_cases is_email userId body new_id now data =
     (if \<not> caseSchema is_email body then (Inl ValidationError, data)
      else
        (let mk = (\<lambda>pids invited.
               \<lparr>ownerId = userId, topic = b_topic body,
                relationship_context = b_relationship_context body,
                parties = b_parties body, participantIds = pids, invitedUserId = invited\<rparr>)
         in if truthy (b_friend_email body) then
              (case findUserByEmail (the (b_friend_email body)) data of
                 None \<Rightarrow> (Inl FriendNotFound, data)
               | Some friend \<Rightarrow>
                   (case createCase (mk (Some [u_id friend]) (Some (u_id friend))) new_id now data of
                      (newCase, data') \<Rightarrow> (Inr newCase, data')))
            else
              (case createCase (mk None None) new_id now data of
                 (newCase, data') \<Rightarrow> (Inr newCase, data'))))"

subsection \<open>GET /cases and GET /cases/:caseId\<close>

text \<open>The response of \<open>GET /cases\<close> lists six fields of each of these cases.\<close>

definition get_cases :: "js_string \<Rightarrow> int \<Rightarrow> DataShape \<Rightarrow> Case list \<times> DataShape" where
  "get_cases userId now data = listCasesByUser userId now data"

text \<open>
  The response of \<open>GET /cases/:caseId\<close> also carries the hearing of the greatest round
  and its verdict, read from a sorted copy of the hearings; only the case is kept here.
\<close>

definition get_case ::
  "js_string \<Rightarrow> js_string \<Rightarrow> int \<Rightarrow> DataShape \<Rightarrow> (HttpError + Case) \<times> DataShape" where
  "get_case caseId userId now data =
     (case getCase caseId now data of
        (None, data1) \<Rightarrow> (Inl CaseNotFound, data1)
      | (Some caseItem, data1) \<Rightarrow>
          if \<not> assertParticipant userId caseItem then (Inl Forbidden, data1)
          else (Inr caseItem, data1))"

subsection \<open>POST /cases/:caseId/hearings\<close>

record HearingBody =
  hb_round :: "jsnum option"
  hb_statements :: "StatementInput list option"
  hb_evidence :: "EvidenceInput list option"

fun int_positive :: "jsnum \<Rightarrow> bool" where
  \<comment> \<open>\<open>z.number().int().positive()\<close>\<close>
  "int_positive (Fin q) = (q = of_int \<lfloor>q\<rfloor> \<and> q > 0)"
| "int_positive NaN = False"
| "int_positive NegInf = False"
| "int_positive PosInf = False"

definition hearingSchema :: "HearingBody \<Rightarrow> bool" where
  "hearingSchema b =
     (optional int_positive (hb_round b)
      \<and> (case hb_statements b of
            None \<Rightarrow> False
          | Some sts \<Rightarrow> list_all statementSchema sts \<and> length sts \<ge> 1)
      \<and> optional (list_all evidenceSchema) (hb_evidence b))"

text \<open>
  The sum below is exact, as the code's is while the greatest round is less than
  \<open>2^53\<close>; from there on the double \<open>max + 1\<close> is \<open>max\<close> itself, which the
  model does not follow.
\<close>

definition next_round :: "Hearing list \<Rightarrow> jsnum" where
  \<comment> \<open>\<open>Math.max(...hearings.map((h) => h.round)) + 1\<close>\<close>
  "next_round hs = js_plus (Math_max (map h_round hs)) (Fin 1)"

definition post_hearings ::
  "js_string \<Rightarrow> js_string \<Rightarrow> HearingBody \<Rightarrow> js_string \<Rightarrow> (nat \<Rightarrow> js_string) \<Rightarrow> int \<Rightarrow> DataShape
     \<Rightarrow> (HttpError + Hearing) \<times> DataShape" where
  "post_hearings caseId userId body new_id eids now data =
     (case getCase caseId now data of
        (None, data1) \<Rightarrow> (Inl CaseNotFound, data1)
      | (Some caseItem, data1) \<Rightarrow>
          if \<not> assertParticipant userId caseItem then (Inl Forbidden, data1)
          else if c_acceptance caseItem \<noteq> None \<and> c_acceptance caseItem \<noteq> Some acc_accepted
            then (Inl CaseNotAccepted, data1)
          else if \<not> hearingSchema body then (Inl ValidationError, data1)
          else
            (let hs = listHearings (c_id caseItem) data1;
                 nextRound = (case hb_round body of
                                Some r \<Rightarrow> r
                              | None \<Rightarrow> if length hs = 0 then Fin 1 else next_round hs)
             in case createHearing (c_id caseItem) nextRound new_id now data1 of
                  (hearing, data2) \<Rightarrow>
                    (Inr hearing,
                     saveEvidence (h_id hearing)
                       (map (to_evidence (h_id hearing) now)
                          (with_ids eids (case hb_evidence body of Some evs \<Rightarrow> evs | None \<Rightarrow> [])))
                       (saveStatements (h_id hearing)
                          (map (to_statement (h_id hearing) now) (the (hb_statements body)))
                          data2))))"

subsection \<open>POST /cases/:caseId/accept and /reject\<close>

fun accept_error :: "StoreError \<Rightarrow> HttpError" where
  "accept_error case_not_found = CaseNotFound"
| "accept_error case_expired = Expired"
| "accept_error forbidden = Forbidden"
| "accept_error case_rejected = AlreadyRejected"

definition post_accept ::
  "js_string \<Rightarrow> js_string \<Rightarrow> int \<Rightarrow> DataShape \<Rightarrow> (HttpError + Case) \<times> DataShape" where
  "post_accept caseId userId now data =
     (case acceptCase caseId userId now data of
        (Inl err, data') \<Rightarrow> (Inl (accept_error err), data')
      | (Inr caseItem, data') \<Rightarrow> (Inr caseItem, data'))"

definition post_reject ::
  "js_string \<Rightarrow> js_string \<Rightarrow> DataShape \<Rightarrow> (HttpError + Case) \<times> DataShape" where
  "post_reject caseId userId data =
     (case rejectCase caseId userId data of
        (Inl err, data') \<Rightarrow> (Inl (accept_error err), data')
      | (Inr caseItem, data') \<Rightarrow> (Inr caseItem, data'))"

section \<open>The judge service (services/openaiJudge.ts)\<close>

record JudgeServiceInput =
  j_caseId :: js_string
  j_hearingId :: js_string
  j_topic :: js_string
  j_parties :: "Party list"
  j_statements :: "Statement list"
  j_evidence :: "Evidence list"

subsection \<open>The mock verdict\<close>

text \<open>
  The code units that \<open>\s\<close> matches: the white space and the line terminators of
  ECMAScript.
\<close>

definition is_ws :: "nat \<Rightarrow> bool" where
  "is_ws c = (c \<in> {9, 10, 11, 12, 13, 32, 160, 5760, 8232, 8233, 8239, 8287, 12288, 65279}
              \<or> (8192 \<le> c \<and> c \<le> 8202))"

text \<open>
  \<open>s.split(/\s+/)\<close>: the pieces between the maximal runs of white space, the empty
  pieces at both ends included; the empty string gives one empty piece.
\<close>

function split_ws :: "js_string \<Rightarrow> js_string list" where
  "split_ws [] = [[]]"
| "split_ws (c # cs) =
     (if is_ws c then [] # split_ws (dropWhile is_ws cs)
      else (case split_ws cs of p # ps \<Rightarrow> (c # p) # ps | [] \<Rightarrow> [[c]]))"
  by pat_completeness auto
termination
  by (relation "measure length") (auto simp: less_Suc_eq_le length_dropWhile_le)

definition words :: "Statement list \<Rightarrow> nat" where
  \<comment> \<open>\<open>sts.reduce((acc, s) => acc + s.narrative.split(/\s+/).length, 0)\<close>\<close>
  "words sts = foldl (\<lambda>acc s. acc + length (split_ws (s_narrative s))) 0 sts"

text \<open>
  The quotient and the product of the share are exact below. In doubles the product can
  fall just under a half that the exact one reaches (23 words of 40 give 57.49999999999999),
  and the share the code rounds to is then one less than the one here; both are whole
  numbers between 0 and 100.
\<close>

definition Math_round :: "rat \<Rightarrow> rat" where
  \<comment> \<open>the nearest integer, a half going up\<close>
  "Math_round x = of_int \<lfloor>x + 1 / 2\<rfloor>"

definition defaultVerdict :: "JudgeServiceInput \<Rightarrow> int \<Rightarrow> Verdict" where
  "defaultVerdict input now =
     (let totalWords = (if words (j_statements input) = 0 then 1
                        else of_nat (words (j_statements input)));
          aWords = (if words (filter (\<lambda>s. s_side s = ascii ''A'') (j_statements input)) = 0
                    then totalWords / 2
                    else of_nat (words (filter (\<lambda>s. s_side s = ascii ''A'') (j_statements input))));
          pA = Math_round ((aWords / totalWords) * 100);
          pB = 100 - pA
      in \<lparr>v_hearing_id = j_hearingId input,
          v_score = \<lparr>partyA_pct = Fin pA, partyB_pct = Fin pB, confidence = Fin (3 / 10)\<rparr>,
          v_summary = JStr (ascii ''Mocked verdict: replace with real OpenAI call.''),
          v_reasoning =
            \<lparr>facts = JStr (ascii ''Mock mode used because no OpenAI API key provided.''),
             fairness_checks = JArr [JStr (ascii ''Mock mode only approximates percentages.'')],
             emotion_considerations = JStr (ascii ''Not evaluated in mock mode.''),
             assumptions = JArr [],
             missing_info = JArr []\<rparr>,
          v_advice =
            \<lparr>together = JArr [JStr (ascii
               ''Share key feelings calmly and set a time to revisit the issue.'')],
             forA = JArr [JStr (ascii ''Acknowledge B'' @
               [30340, 21387, 21147, 24182, 29992, 8220, 25105, 24863, 21463, 8221, 21477,
                24335, 34920, 36798, 38656, 27714, 12290])],
             forB = JArr [JStr
               ([20027, 21160, 30830, 35748] @ ascii '' A '' @
                [30340, 26680, 24515, 35785, 27714, 65292, 24182, 25552, 20986, 19968,
                 20010, 23567, 30340, 35753, 27493, 34892, 21160, 12290])]\<rparr>,
          v_raw_agent_payload = None,
          v_created_at = now\<rparr>)"

subsection \<open>The verdict of a parsed response\<close>

text \<open>
  Reading a property. \<open>get v k\<close> is \<open>v.k\<close> on a value that is not \<open>null\<close>:
  the own property of an object, \<open>undefined\<close> (\<open>None\<close>) otherwise, none of the names
  read here being a property of the prototypes. \<open>opt_get\<close> is \<open>v?.k\<close> and
  \<open>nullish\<close> is \<open>v ?? d\<close>.
\<close>

datatype JsError = TypeError

fun get :: "json \<Rightarrow> js_string \<Rightarrow> json option" where
  "get (JObj kvs) k = map_of kvs k"
| "get v k = None"

fun opt_get :: "json option \<Rightarrow> js_string \<Rightarrow> json option" where
  "opt_get None k = None"
| "opt_get (Some JNull) k = None"
| "opt_get (Some v) k = get v k"

fun nullish :: "json option \<Rightarrow> json \<Rightarrow> json" where
  "nullish None d = d"
| "nullish (Some JNull) d = d"
| "nullish (Some v) d = v"

text \<open>
  \<open>Number(v)\<close>. A parsed object has no callable property of its own, so it converts
  through \<open>Object.prototype.toString\<close> to a string that is no number, unless it has
  a property \<open>toString\<close> of its own, and then the conversion throws. The conversion
  of a string, and of an array through its \<open>join\<close>, is the runtime's: \<open>prim\<close> is
  an argument.
\<close>

fun Number :: "(json \<Rightarrow> JsError + jsnum) \<Rightarrow> json \<Rightarrow> JsError + jsnum" where
  "Number prim (JNum n) = Inr n"
| "Number prim (JBool b) = Inr (Fin (if b then 1 else 0))"
| "Number prim JNull = Inr (Fin 0)"
| "Number prim (JObj kvs) =
     (if map_of kvs (ascii ''toString'') \<noteq> None then Inl TypeError else Inr NaN)"
| "Number prim v = prim v"

definition clamp :: "rat \<Rightarrow> rat \<Rightarrow> jsnum \<Rightarrow> jsnum" where
  \<comment> \<open>\<open>Math.min(hi, Math.max(lo, n))\<close>\<close>
  "clamp lo hi n = js_min2 (Fin hi) (js_max2 (Fin lo) n)"

definition clamped ::
  "(json \<Rightarrow> JsError + jsnum) \<Rightarrow> rat \<Rightarrow> json option \<Rightarrow> JsError + jsnum" where
  \<comment> \<open>\<open>Math.min(hi, Math.max(0, Number(v ?? 0)))\<close>\<close>
  "clamped prim hi v =
     (case Number prim (nullish v (JNum (Fin 0))) of
        Inl e \<Rightarrow> Inl e
      | Inr n \<Rightarrow> Inr (clamp 0 hi n))"

definition verdict_of_parsed ::
  "(json \<Rightarrow> JsError + jsnum) \<Rightarrow> json \<Rightarrow> js_string \<Rightarrow> json \<Rightarrow> int \<Rightarrow> JsError + Verdict" where
  "verdict_of_parsed prim parsed hearingId completion now =
     (if parsed = JNull then Inl TypeError
      else
        case clamped prim 100 (opt_get (get parsed (ascii ''score'')) (ascii ''partyA_pct'')) of
          Inl e \<Rightarrow> Inl e
        | Inr pA \<Rightarrow>
        case clamped prim 100 (opt_get (get parsed (ascii ''score'')) (ascii ''partyB_pct'')) of
          Inl e \<Rightarrow> Inl e
        | Inr pB \<Rightarrow>
        case clamped prim 1 (opt_get (get parsed (ascii ''score'')) (ascii ''confidence'')) of
          Inl e \<Rightarrow> Inl e
        | Inr conf \<Rightarrow>
          (let reasoning = get parsed (ascii ''reasoning'');
               advice = get parsed (ascii ''advice'')
           in Inr
            \<lparr>v_hearing_id = hearingId,
             v_score = \<lparr>partyA_pct = pA, partyB_pct = pB, confidence = conf\<rparr>,
             v_summary = nullish (get parsed (ascii ''summary'')) (JStr []),
             v_reasoning =
               \<lparr>facts = nullish (opt_get reasoning (ascii ''facts'')) (JStr []),
                fairness_checks = nullish (opt_get reasoning (ascii ''fairness_checks'')) (JArr []),
                emotion_considerations =
                  nullish (opt_get reasoning (ascii ''emotion_considerations'')) (JStr []),
                assumptions = nullish (opt_get reasoning (ascii ''assumptions'')) (JArr []),
                missing_info = nullish (opt_get reasoning (ascii ''missing_info'')) (JArr [])\<rparr>,
             v_advice =
               \<lparr>together = nullish (opt_get advice (ascii ''together'')) (JArr []),
                forA = nullish (opt_get advice (ascii ''forA'')) (JArr []),
                forB = nullish (opt_get advice (ascii ''forB'')) (JArr [])\<rparr>,
             v_raw_agent_payload = Some completion,
             v_created_at = now\<rparr>))"

text \<open>
  \<open>createJudgeService(deps).judge\<close>. The client's answer to a prompt is \<open>None\<close>
  when the call fails, returns no content, or returns content that \<open>JSON.parse\<close>
  rejects; otherwise it is the completion and its parsed content.
\<close>

datatype JudgeError = JudgeThrew

definition judge ::
  "bool \<Rightarrow> (json \<Rightarrow> JsError + jsnum) \<Rightarrow> (JudgeServiceInput \<Rightarrow> (json \<times> json) option)
     \<Rightarrow> JudgeServiceInput \<Rightarrow> int \<Rightarrow> JudgeError + Verdict" where
  "judge useMock prim client input now =
     (if useMock then Inr (defaultVerdict input now)
      else
        case client input of
          None \<Rightarrow> Inl JudgeThrew
        | Some (completion, parsed) \<Rightarrow>
            (case verdict_of_parsed prim parsed (j_hearingId input) completion now of
               Inl e \<Rightarrow> Inl JudgeThrew
             | Inr verdict \<Rightarrow> Inr verdict))"

section \<open>The handlers of a hearing (http/server.ts)\<close>

subsection \<open>POST /cases/:caseId/hearings/:hearingId/judge\<close>

text \<open>
  The judge service is the argument of \<open>buildServer\<close>; the handler awaits it and
  saves the verdict. The request is taken as one step: the data that \<open>saveVerdict\<close>
  changes are those the handler has read.
\<close>

type_synonym JudgeService = "JudgeServiceInput \<Rightarrow> int \<Rightarrow> JudgeError + Verdict"

definition post_judge ::
  "JudgeService \<Rightarrow> js_string \<Rightarrow> js_string \<Rightarrow> js_string \<Rightarrow> int \<Rightarrow> DataShape
     \<Rightarrow> (HttpError + Verdict) \<times> DataShape" where
  "post_judge judgeService caseId hearingId userId now data =
     (case getCase caseId now data of
        (None, data1) \<Rightarrow> (Inl CaseNotFound, data1)
      | (Some caseItem, data1) \<Rightarrow>
          if \<not> assertParticipant userId caseItem then (Inl Forbidden, data1)
          else
            (case getHearing hearingId data1 of
               None \<Rightarrow> (Inl HearingNotFound, data1)
             | Some hearing \<Rightarrow>
                 if h_case_id hearing \<noteq> c_id caseItem then (Inl HearingNotFound, data1)
                 else
                   (case judgeService
                           \<lparr>j_caseId = c_id caseItem, j_hearingId = h_id hearing,
                            j_topic = c_topic caseItem, j_parties = c_parties caseItem,
                            j_statements = getStatements (h_id hearing) data1,
                            j_evidence = getEvidence (h_id hearing) data1\<rparr> now of
                      Inl err \<Rightarrow> (Inl JudgeFailed, data1)
                    | Inr verdict \<Rightarrow> (Inr verdict, saveVerdict verdict data1))))"

subsection \<open>GET /cases/:caseId/hearings/:hearingId/verdict\<close>

definition get_verdict ::
  "js_string \<Rightarrow> js_string \<Rightarrow> js_string \<Rightarrow> int \<Rightarrow> DataShape
     \<Rightarrow> (HttpError + Verdict) \<times> DataShape" where
  "get_verdict caseId hearingId userId now data =
     (case getCase caseId now data of
        (None, data1) \<Rightarrow> (Inl CaseNotFound, data1)
      | (Some caseItem, data1) \<Rightarrow>
          if \<not> assertParticipant userId caseItem then (Inl Forbidden, data1)
          else
            (case getHearing hearingId data1 of
               None \<Rightarrow> (Inl HearingNotFound, data1)
             | Some hearing \<Rightarrow>
                 if h_case_id hearing \<noteq> c_id caseItem then (Inl HearingNotFound, data1)
                 else
                   (case getVerdict (h_id hearing) data1 of
                      None \<Rightarrow> (Inl VerdictNotFound, data1)
                    | Some verdict \<Rightarrow> (Inr verdict, data1))))"

subsection \<open>POST /cases/:caseId/hearings/:hearingId/appeal\<close>

record AppealBody =
  ab_statements :: "StatementInput list option"
  ab_evidence :: "EvidenceInput list option"

definition appealSchema :: "AppealBody \<Rightarrow> bool" where
  "appealSchema b =
     (optional (list_all statementSchema) (ab_statements b)
      \<and> optional (list_all evidenceSchema) (ab_evidence b))"

text \<open>
  The handler ends with \<open>caseItem.status = "appealed"; updateCase(caseItem);\<close> and
  the response 201. \<open>caseItem\<close> is the object of the cached data, so the assignment
  changes the data; \<open>updateCase\<close> is declared nowhere in the repository, so evaluating
  the call throws a \<open>ReferenceError\<close> after the assignment, and the response 201 that
  follows is not reached. No \<open>save\<close> comes between the assignment and the throw: the
  file keeps the status that \<open>createHearing\<close> saved until the next save.
\<close>

definition post_appeal ::
  "js_string \<Rightarrow> js_string \<Rightarrow> js_string \<Rightarrow> AppealBody \<Rightarrow> js_string \<Rightarrow> (nat \<Rightarrow> js_string) \<Rightarrow> int
     \<Rightarrow> DataShape \<Rightarrow> (HttpError + Hearing) \<times> DataShape" where
  "post_appeal caseId hearingId userId body new_id eids now data =
     (case getCase caseId now data of
        (None, data1) \<Rightarrow> (Inl CaseNotFound, data1)
      | (Some caseItem, data1) \<Rightarrow>
          if \<not> assertParticipant userId caseItem then (Inl Forbidden, data1)
          else
            (case getHearing hearingId data1 of
               None \<Rightarrow> (Inl HearingNotFound, data1)
             | Some hearing \<Rightarrow>
                 if h_case_id hearing \<noteq> c_id caseItem then (Inl HearingNotFound, data1)
                 else if \<not> appealSchema body then (Inl ValidationError, data1)
                 else
                   (case createHearing (c_id caseItem)
                           (next_round (listHearings (c_id caseItem) data1)) new_id now data1 of
                      (next, data2) \<Rightarrow>
                        (let data3 = (case ab_statements body of
                                        Some sts \<Rightarrow> saveStatements (h_id next)
                                          (map (to_statement (h_id next) now) sts) data2
                                      | None \<Rightarrow> data2);
                             data4 = (case ab_evidence body of
                                        Some evs \<Rightarrow> saveEvidence (h_id next)
                                          (map (to_evidence (h_id next) now) (with_ids eids evs)) data3
                                      | None \<Rightarrow> data3);
                             data5 = data4\<lparr>cases := update_first (\<lambda>c. c_id c = c_id caseItem)
                                        (\<lambda>c. c\<lparr>c_status := appealed\<rparr>) (cases data4)\<rparr>
                         in (Inl ReferenceError, data5)))))"

section \<open>Sequences of requests\<close>

datatype Request =
  PostCases js_string CaseBody js_string
| GetCases js_string
| GetCase js_string js_string
| PostHearings js_string js_string HearingBody js_string "nat \<Rightarrow> js_string"
| PostAccept js_string js_string
| PostReject js_string js_string
| PostJudge js_string js_string js_string
| GetVerdict js_string js_string js_string
| PostAppeal js_string js_string js_string AppealBody js_string "nat \<Rightarrow> js_string"
| JudgeReturns Verdict

text \<open>
  The data after a request served at the time \<open>now\<close>. The judge handler awaits the
  service, and other requests may be served meanwhile: \<open>PostJudge\<close> is the handler
  run without interruption, and \<open>JudgeReturns verdict\<close> is the rest of an interrupted
  one, from the return of the service on, which saves the verdict.
\<close>

fun handle ::
  "(js_string \<Rightarrow> bool) \<Rightarrow> JudgeService \<Rightarrow> Request \<times> int \<Rightarrow> DataShape \<Rightarrow> DataShape" where
  "handle is_email js (PostCases userId body new_id, now) data =
     snd (post_cases is_email userId body new_id now data)"
| "handle is_email js (GetCases userId, now) data = snd (get_cases userId now data)"
| "handle is_email js (GetCase caseId userId, now) data = snd (get_case caseId userId now data)"
| "handle is_email js (PostHearings caseId userId body new_id eids, now) data =
     snd (post_hearings caseId userId body new_id eids now data)"
| "handle is_email js (PostAccept caseId userId, now) data =
     snd (post_accept caseId userId now data)"
| "handle is_email js (PostReject caseId userId, now) data =
     snd (post_reject caseId userId data)"
| "handle is_email js (PostJudge caseId hearingId userId, now) data =
     snd (post_judge js caseId hearingId userId now data)"
| "handle is_email js (GetVerdict caseId hearingId userId, now) data =
     snd (get_verdict caseId hearingId userId now data)"
| "handle is_email js (PostAppeal caseId hearingId userId body new_id eids, now) data =
     snd (post_appeal caseId hearingId userId body new_id eids now data)"
| "handle is_email js (JudgeReturns verdict, now) data = saveVerdict verdict data"

definition serve ::
  "(js_string \<Rightarrow> bool) \<Rightarrow> JudgeService \<Rightarrow> (Request \<times> int) list \<Rightarrow> DataShape \<Rightarrow> DataShape" where
  "serve is_email js reqs data = foldl (\<lambda>d r. handle is_email js r d) data reqs"

text \<open>A request that gives a hearing of the case \<open>cid\<close> a round of its own choice.\<close>

fun explicit_round :: "js_string \<Rightarrow> Request \<times> int \<Rightarrow> bool" where
  "explicit_round cid (PostHearings caseId userId body new_id eids, now) =
     (caseId = cid \<and> hb_round body \<noteq> None)"
| "explicit_round cid r = False"

text \<open>The rounds of the hearings of a case, in the order of their creation, are 1, 2, 3, ...\<close>

definition rounds_in_sequence :: "js_string \<Rightarrow> DataShape \<Rightarrow> bool" where
  "rounds_in_sequence cid data =
     (map h_round (listHearings cid data)
        = map (\<lambda>i. Fin (of_nat i)) [1 ..< Suc (length (listHearings cid data))])"

definition empty_data :: DataShape where
  "empty_data = \<lparr>users = [], cases = [], hearings = [], statements = [], evidence = [],
                  verdicts = []\<rparr>"

section \<open>Repeated calls and example data\<close>

text \<open>The responses of a sequence of accept requests on one case, and the data after it.\<close>

fun accept_calls ::
  "js_string \<Rightarrow> (js_string \<times> int) list \<Rightarrow> DataShape \<Rightarrow> (HttpError + Case) list \<times> DataShape" where
  "accept_calls caseId [] data = ([], data)"
| "accept_calls caseId ((userId, now) # calls) data =
     (case post_accept caseId userId now data of
        (r, data') \<Rightarrow>
          (case accept_calls caseId calls data' of (rs, data'') \<Rightarrow> (r # rs, data'')))"

text \<open>The data once the case \<open>caseId\<close> has been marked expired.\<close>

definition expired_data :: "js_string \<Rightarrow> DataShape \<Rightarrow> DataShape" where
  "expired_data caseId data =
     data\<lparr>cases := update_first (\<lambda>c. c_id c = caseId) expire (cases data)\<rparr>"

text \<open>
  Example data: the case \<open>c1\<close> of owner \<open>u1\<close>, who invited \<open>u2\<close> at time 1000; a third
  user \<open>u3\<close> has no part in it.
\<close>

definition ex_invited :: Case where
  "ex_invited =
     \<lparr>c_id = ascii ''c1'', c_topic = ascii ''chores'', c_relationship_context = None,
      c_parties = default_parties, c_status = pending_acceptance, c_created_at = 1000,
      c_owner_id = Some (ascii ''u1''),
      c_participant_ids = Some [ascii ''u1'', ascii ''u2''],
      c_invited_user_id = Some (ascii ''u2''),
      c_expires_at = Some 86401000, c_acceptance = Some acc_pending\<rparr>"

definition ex_accepted :: Case where
  "ex_accepted = ex_invited\<lparr>c_status := draft, c_acceptance := Some acc_accepted\<rparr>"

definition ex_users :: "User list" where
  "ex_users =
     [\<lparr>u_id = ascii ''u1'', u_email = ascii ''a@x.io'', u_name = ascii ''Ann'',
       u_password = ascii ''h1'', u_friends = []\<rparr>,
      \<lparr>u_id = ascii ''u2'', u_email = ascii ''b@x.io'', u_name = ascii ''Bob'',
       u_password = ascii ''h2'', u_friends = []\<rparr>]"

text \<open>Recording one verdict after another.\<close>

definition saveVerdicts :: "Verdict list \<Rightarrow> DataShape \<Rightarrow> DataShape" where
  "saveVerdicts vs data = foldl (\<lambda>d v. saveVerdict v d) data vs"

text \<open>
  Example data: the case \<open>c1\<close>, accepted, with its first hearing \<open>h1\<close> submitted and
  two statements; two verdicts for \<open>h1\<close>.
\<close>

definition ex_hearing :: Hearing where
  "ex_hearing = \<lparr>h_id = ascii ''h1'', h_case_id = ascii ''c1'', h_round = Fin 1,
                  h_status = submitted, h_created_at = 2000\<rparr>"

definition ex_statementA :: Statement where
  "ex_statementA =
     \<lparr>s_hearing_id = ascii ''h1'', s_side = ascii ''A'', s_narrative = ascii ''I did dishes'',
      s_feelings = None, s_context = None, s_requests = None, s_created_at = 2000\<rparr>"

definition ex_statementB :: Statement where
  "ex_statementB =
     \<lparr>s_hearing_id = ascii ''h1'', s_side = ascii ''B'', s_narrative = ascii ''I cooked'',
      s_feelings = None, s_context = None, s_requests = None, s_created_at = 2000\<rparr>"

definition ex_data :: DataShape where
  "ex_data =
     \<lparr>users = ex_users, cases = [ex_accepted\<lparr>c_status := pending_judgement\<rparr>],
      hearings = [ex_hearing], statements = [ex_statementA, ex_statementB],
      evidence = [], verdicts = []\<rparr>"

definition ex_verdict :: Verdict where
  "ex_verdict =
     \<lparr>v_hearing_id = ascii ''h1'',
      v_score = \<lparr>partyA_pct = Fin 60, partyB_pct = Fin 40, confidence = Fin (3 / 10)\<rparr>,
      v_summary = JStr (ascii ''first''),
      v_reasoning = \<lparr>facts = JStr [], fairness_checks = JArr [],
                     emotion_considerations = JStr [], assumptions = JArr [],
                     missing_info = JArr []\<rparr>,
      v_advice = \<lparr>together = JArr [], forA = JArr [], forB = JArr []\<rparr>,
      v_raw_agent_payload = None,
      v_created_at = 3000\<rparr>"

definition ex_verdict2 :: Verdict where
  "ex_verdict2 = ex_verdict\<lparr>v_summary := JStr (ascii ''second''), v_created_at := 4000\<rparr>"

text \<open>
  Example requests to \<open>POST /cases\<close>: \<open>u1\<close> inviting the user of address
  \<open>b@x.io\<close>, which is \<open>u2\<close>, and \<open>u1\<close> alone giving two parties of side A, or one.
  \<open>ex_is_email\<close> stands for the library's check in the examples.
\<close>

definition ex_is_email :: "js_string \<Rightarrow> bool" where
  "ex_is_email e = (64 \<in> set e)"

definition ex_case_body :: CaseBody where
  "ex_case_body = \<lparr>b_topic = ascii ''chores'', b_relationship_context = None,
                    b_parties = None, b_friend_email = Some (ascii ''b@x.io'')\<rparr>"

definition ex_input :: CreateCaseInput where
  "ex_input = \<lparr>ownerId = ascii ''u1'', topic = ascii ''chores'', relationship_context = None,
                parties = None, participantIds = Some [ascii ''u2''],
                invitedUserId = Some (ascii ''u2'')\<rparr>"

definition party_A :: Party where
  "party_A = \<lparr>p_side = ascii ''A'', p_name = None, p_baseline_state = None\<rparr>"

definition ex_body_parties :: "Party list \<Rightarrow> CaseBody" where
  "ex_body_parties ps = \<lparr>b_topic = ascii ''chores'', b_relationship_context = None,
                          b_parties = Some ps, b_friend_email = None\<rparr>"

definition ex_case_parties :: "Party list \<Rightarrow> Case" where
  "ex_case_parties ps =
     \<lparr>c_id = ascii ''c1'', c_topic = ascii ''chores'', c_relationship_context = None,
      c_parties = ps, c_status = draft, c_created_at = 1000,
      c_owner_id = Some (ascii ''u1''), c_participant_ids = Some [ascii ''u1''],
      c_invited_user_id = None, c_expires_at = None, c_acceptance = Some acc_accepted\<rparr>"

text \<open>
  The case and the round of every hearing, in the order of creation: what the rounds of
  a case depend on.
\<close>

definition round_keys :: "DataShape \<Rightarrow> (js_string \<times> jsnum) list" where
  "round_keys data = map (\<lambda>h. (h_case_id h, h_round h)) (hearings data)"

definition seq_keys :: "js_string \<Rightarrow> (js_string \<times> jsnum) list \<Rightarrow> bool" where
  "seq_keys cid ks =
     (map snd (filter (\<lambda>k. fst k = cid) ks)
        = map (\<lambda>i. Fin (of_nat i)) [1 ..< Suc (length (filter (\<lambda>k. fst k = cid) ks))])"

text \<open>The round that \<open>POST /cases/:caseId/hearings\<close> gives a hearing when the body has none.\<close>

definition omitted_round :: "js_string \<Rightarrow> DataShape \<Rightarrow> jsnum" where
  "omitted_round caseId data =
     (if length (listHearings caseId data) = 0 then Fin 1
      else next_round (listHearings caseId data))"

text \<open>
  Example requests: \<open>u1\<close> submits the first hearing of \<open>c1\<close>, has it judged by the mock
  service, and the two participants appeal in turn.
\<close>

definition ex_statement_inputs :: "StatementInput list" where
  "ex_statement_inputs =
     [\<lparr>si_side = ascii ''A'', si_narrative = ascii ''I did dishes'', si_feelings = None,
       si_context = None, si_requests = None\<rparr>,
      \<lparr>si_side = ascii ''B'', si_narrative = ascii ''I cooked'', si_feelings = None,
       si_context = None, si_requests = None\<rparr>]"

definition ex_judge :: JudgeService where
  "ex_judge = judge True (\<lambda>v. Inr NaN) (\<lambda>input. None)"

definition ex_requests :: "(Request \<times> int) list" where
  "ex_requests =
     [(PostHearings (ascii ''c1'') (ascii ''u1'')
         \<lparr>hb_round = None, hb_statements = Some ex_statement_inputs, hb_evidence = None\<rparr>
         (ascii ''h1'') (\<lambda>i. ascii ''e''), 2000),
      (PostJudge (ascii ''c1'') (ascii ''h1'') (ascii ''u1''), 3000),
      (PostAppeal (ascii ''c1'') (ascii ''h1'') (ascii ''u2'')
         \<lparr>ab_statements = None, ab_evidence = None\<rparr> (ascii ''h2'') (\<lambda>i. ascii ''e''), 4000),
      (PostAppeal (ascii ''c1'') (ascii ''h1'') (ascii ''u1'')
         \<lparr>ab_statements = Some ex_statement_inputs, ab_evidence = None\<rparr>
         (ascii ''h3'') (\<lambda>i. ascii ''e''), 5000)]"

text \<open>
  Example inputs of the judge service: the two statements of \<open>h1\<close>, and parsed
  responses of the model: one whose \<open>partyA_pct\<close> is an object and whose summary is a
  number, one whose \<open>partyA_pct\<close> is an object with a property \<open>toString\<close>, and one
  with the scores 150, -20 and -1 and nothing else.
\<close>

definition ex_judge_input :: JudgeServiceInput where
  "ex_judge_input =
     \<lparr>j_caseId = ascii ''c1'', j_hearingId = ascii ''h1'', j_topic = ascii ''chores'',
      j_parties = default_parties, j_statements = [ex_statementA, ex_statementB],
      j_evidence = []\<rparr>"

definition ex_parsed_object :: json where
  "ex_parsed_object =
     JObj [(ascii ''score'',
            JObj [(ascii ''partyA_pct'', JObj [(ascii ''value'', JNum (Fin 60))]),
                  (ascii ''partyB_pct'', JNum (Fin 40)),
                  (ascii ''confidence'', JNum (Fin (9 / 10)))]),
           (ascii ''summary'', JNum (Fin 42))]"

definition ex_parsed_toString :: json where
  "ex_parsed_toString =
     JObj [(ascii ''score'',
            JObj [(ascii ''partyA_pct'', JObj [(ascii ''toString'', JNum (Fin 60))]),
                  (ascii ''partyB_pct'', JNum (Fin 40))])]"

definition ex_parsed_numbers :: json where
  "ex_parsed_numbers =
     JObj [(ascii ''score'',
            JObj [(ascii ''partyA_pct'', JNum (Fin 150)),
                  (ascii ''partyB_pct'', JNum (Fin (- 20))),
                  (ascii ''confidence'', JNum (Fin (- 1)))])]"

section \<open>Properties\<close>

subsection \<open>Finding and updating the first match\<close>

lemma find_update_first:
  "(\<And>x. p (f x) = p x) \<Longrightarrow> find p (update_first p f xs) = map_option f (find p xs)"
  by (induction xs) auto

lemma update_first_idem:
  "(\<And>x. p (f x) = p x) \<Longrightarrow> (\<And>x. f (f x) = f x) \<Longrightarrow>
   update_first p f (update_first p f xs) = update_first p f xs"
  by (induction xs) auto

lemma expire_simps [simp]:
  "c_id (expire c) = c_id c"
  "c_acceptance (expire c) = Some acc_expired"
  "c_status (expire c) = expired"
  "c_expires_at (expire c) = c_expires_at c"
  "c_participant_ids (expire c) = c_participant_ids c"
  "expire (expire c) = expire c"
  by (simp_all add: expire_def)

subsection \<open>Accepting an invitation\<close>

lemma post_accept_expired_step:
  assumes "findCase caseId data = Some c"
      and "c_acceptance c = Some acc_pending \<or> c_acceptance c = Some acc_expired"
      and "c_expires_at c = Some e" and "e < now"
  shows "post_accept caseId userId now data = (Inl Expired, expired_data caseId data)"
  using assms by (auto simp: post_accept_def acceptCase_def is_past_def expired_data_def)

lemma findCase_expired_data:
  "findCase caseId data = Some c \<Longrightarrow> findCase caseId (expired_data caseId data) = Some (expire c)"
  by (simp add: findCase_def expired_data_def find_update_first)

lemma expired_data_idem:
  "expired_data caseId (expired_data caseId data) = expired_data caseId data"
  by (simp add: expired_data_def update_first_idem)

lemma accept_calls_on_expired:
  assumes "findCase caseId data = Some c"
      and "c_acceptance c = Some acc_expired"
      and "c_expires_at c = Some e"
      and "\<forall>(u, t) \<in> set calls. e < t"
      and "expired_data caseId data = data"
  shows "accept_calls caseId calls data = (replicate (length calls) (Inl Expired), data)"
  using assms
proof (induction calls)
  case Nil
  then show ?case by simp
next
  case (Cons call calls)
  obtain u t where call: "call = (u, t)" by (cases call)
  with Cons.prems have "e < t" by simp
  then have "post_accept caseId u t data = (Inl Expired, data)"
    using post_accept_expired_step [of caseId data c e t u] Cons.prems by simp
  moreover have "accept_calls caseId calls data = (replicate (length calls) (Inl Expired), data)"
    using Cons by simp
  ultimately show ?case by (simp add: call)
qed

text \<open>
  C4. A case whose acceptance is pending and whose expiry lies before the time of every
  call: each of one or more accept requests, by whatever users, is answered \<open>Expired\<close>,
  and the data after the first and after every later one are the same: those where the
  case has acceptance \<open>expired\<close> and status \<open>expired\<close>.
\<close>

theorem acceptCase_after_expiry:
  assumes "findCase caseId data = Some c"
      and "c_acceptance c = Some acc_pending"
      and "c_expires_at c = Some e"
      and "calls \<noteq> []"
      and "\<forall>(u, t) \<in> set calls. e < t"
  shows "accept_calls caseId calls data
           = (replicate (length calls) (Inl Expired), expired_data caseId data)
         \<and> findCase caseId (expired_data caseId data) = Some (expire c)
         \<and> c_acceptance (expire c) = Some acc_expired \<and> c_status (expire c) = expired"
proof -
  obtain u t calls' where calls: "calls = (u, t) # calls'"
    using assms(4) by (cases calls) auto
  have t: "e < t" and rest: "\<forall>(u, t) \<in> set calls'. e < t"
    using assms(5) by (auto simp: calls)
  have first: "post_accept caseId u t data = (Inl Expired, expired_data caseId data)"
    using post_accept_expired_step [of caseId data c e t u] assms t by simp
  have f: "findCase caseId (expired_data caseId data) = Some (expire c)"
    using assms(1) by (rule findCase_expired_data)
  have "accept_calls caseId calls' (expired_data caseId data)
          = (replicate (length calls') (Inl Expired), expired_data caseId data)"
    using accept_calls_on_expired [OF f _ _ rest] assms(3) by (simp add: expired_data_idem)
  with first f show ?thesis by (simp add: calls)
qed

theorem acceptCase_after_expiry_witness:
  "accept_calls (ascii ''c1'')
     [(ascii ''u2'', 86401001), (ascii ''u3'', 86401002), (ascii ''u2'', 90000000)]
     (empty_data\<lparr>cases := [ex_invited]\<rparr>)
   = ([Inl Expired, Inl Expired, Inl Expired], empty_data\<lparr>cases := [expire ex_invited]\<rparr>)
   \<and> c_acceptance (expire ex_invited) = Some acc_expired
   \<and> c_status (expire ex_invited) = expired"
proof -
  let ?data = "empty_data\<lparr>cases := [ex_invited]\<rparr>"
  let ?calls = "[(ascii ''u2'', 86401001), (ascii ''u3'', 86401002), (ascii ''u2'', 90000000 :: int)]"
  have 1: "findCase (ascii ''c1'') ?data = Some ex_invited"
    by (simp add: findCase_def ex_invited_def)
  have 2: "c_acceptance ex_invited = Some acc_pending"
    by (simp add: ex_invited_def)
  have 3: "c_expires_at ex_invited = Some 86401000"
    by (simp add: ex_invited_def)
  have 4: "?calls \<noteq> []" by simp
  have 5: "\<forall>(u, t) \<in> set ?calls. 86401000 < t" by simp
  have 6: "expired_data (ascii ''c1'') ?data = empty_data\<lparr>cases := [expire ex_invited]\<rparr>"
    by (simp add: expired_data_def ex_invited_def)
  show ?thesis
    using acceptCase_after_expiry [OF 1 2 3 4 5] by (simp add: 6)
qed

text \<open>
  C9. On a case that is already accepted, accepting returns the case and leaves the data
  as they are, whoever the acting user is: the check of the invited user comes later in
  the function and is not reached.
\<close>

theorem acceptCase_already_accepted:
  assumes "findCase caseId data = Some c"
      and "c_acceptance c = Some acc_accepted"
  shows "acceptCase caseId userId now data = (Inr c, data)
         \<and> post_accept caseId userId now data = (Inr c, data)"
  using assms by (simp add: acceptCase_def post_accept_def)

theorem acceptCase_already_accepted_witness:
  "c_invited_user_id ex_accepted \<noteq> Some (ascii ''u3'')
   \<and> \<not> assertParticipant (ascii ''u3'') ex_accepted
   \<and> acceptCase (ascii ''c1'') (ascii ''u3'') 5000 (empty_data\<lparr>cases := [ex_accepted]\<rparr>)
       = (Inr ex_accepted, empty_data\<lparr>cases := [ex_accepted]\<rparr>)
   \<and> post_accept (ascii ''c1'') (ascii ''u3'') 5000 (empty_data\<lparr>cases := [ex_accepted]\<rparr>)
       = (Inr ex_accepted, empty_data\<lparr>cases := [ex_accepted]\<rparr>)"
proof -
  have 1: "findCase (ascii ''c1'') (empty_data\<lparr>cases := [ex_accepted]\<rparr>) = Some ex_accepted"
    by (simp add: findCase_def ex_accepted_def ex_invited_def)
  have 2: "c_acceptance ex_accepted = Some acc_accepted"
    by (simp add: ex_accepted_def)
  have 3: "c_invited_user_id ex_accepted \<noteq> Some (ascii ''u3'')"
    by (simp add: ex_accepted_def ex_invited_def ascii_def)
  have 4: "\<not> assertParticipant (ascii ''u3'') ex_accepted"
    by (simp add: assertParticipant_def includes_id_def ex_accepted_def ex_invited_def ascii_def)
  show ?thesis
    using acceptCase_already_accepted [OF 1 2, of "ascii ''u3''" 5000] 3 4 by simp
qed

subsection \<open>Recording verdicts\<close>

lemma find_append_first:
  "find p (xs @ ys) = (case find p xs of None \<Rightarrow> find p ys | Some x \<Rightarrow> Some x)"
  by (induction xs) auto

lemma find_filter_neq: "find (\<lambda>v. k v = x) (filter (\<lambda>v. k v \<noteq> x) xs) = None"
  by (induction xs) auto

lemma getVerdict_saveVerdict:
  "getVerdict (v_hearing_id v) (saveVerdict v data) = Some v"
  by (simp add: getVerdict_def saveVerdict_def Let_def find_append_first find_filter_neq)

lemma filter_verdicts_saveVerdict:
  "filter (\<lambda>w. v_hearing_id w = v_hearing_id v) (verdicts (saveVerdict v data)) = [v]"
  by (simp add: saveVerdict_def Let_def)

lemma getHearing_saveVerdict:
  "getHearing (v_hearing_id v) (saveVerdict v data)
     = map_option (\<lambda>h. h\<lparr>h_status := judged\<rparr>) (getHearing (v_hearing_id v) data)"
  by (simp add: getHearing_def saveVerdict_def Let_def find_update_first)

lemma findCase_saveVerdict:
  assumes "getHearing (v_hearing_id v) data = Some h"
  shows "findCase (h_case_id h) (saveVerdict v data)
           = map_option (\<lambda>c. c\<lparr>c_status := decided\<rparr>) (findCase (h_case_id h) data)"
  using assms by (simp add: getHearing_def findCase_def saveVerdict_def Let_def find_update_first)

lemma saveVerdicts_snoc: "saveVerdicts (vs @ [v]) data = saveVerdict v (saveVerdicts vs data)"
  by (simp add: saveVerdicts_def)

lemma saveVerdicts_hearing_case:
  assumes "\<forall>v \<in> set vs. v_hearing_id v = hearingId"
      and "getHearing hearingId data = Some h"
      and "findCase (h_case_id h) data = Some c"
  shows "getHearing hearingId (saveVerdicts vs data)
           = Some (if vs = [] then h else h\<lparr>h_status := judged\<rparr>)
         \<and> findCase (h_case_id h) (saveVerdicts vs data)
           = Some (if vs = [] then c else c\<lparr>c_status := decided\<rparr>)"
  using assms(1)
proof (induction vs rule: rev_induct)
  case Nil
  show ?case using assms(2,3) by (simp add: saveVerdicts_def)
next
  case (snoc v vs)
  then have IH: "getHearing hearingId (saveVerdicts vs data)
           = Some (if vs = [] then h else h\<lparr>h_status := judged\<rparr>)"
    "findCase (h_case_id h) (saveVerdicts vs data)
           = Some (if vs = [] then c else c\<lparr>c_status := decided\<rparr>)"
    and v: "v_hearing_id v = hearingId" by simp_all
  let ?d = "saveVerdicts vs data"
  let ?h = "if vs = [] then h else h\<lparr>h_status := judged\<rparr>"
  have gh: "getHearing (v_hearing_id v) ?d = Some ?h" using IH(1) v by simp
  have cid: "h_case_id ?h = h_case_id h" by simp
  have "getHearing hearingId (saveVerdict v ?d) = Some (h\<lparr>h_status := judged\<rparr>)"
    using getHearing_saveVerdict [of v ?d] gh v by (simp split: if_splits)
  moreover have "findCase (h_case_id h) (saveVerdict v ?d) = Some (c\<lparr>c_status := decided\<rparr>)"
    using findCase_saveVerdict [OF gh] IH(2) cid by (simp split: if_splits)
  ultimately show ?case by (simp add: saveVerdicts_snoc)
qed

text \<open>
  C7. One or more verdicts recorded in turn for the same hearing, a hearing of the data
  whose case is in the data: the verdict found under the hearing's id is the last one
  recorded and it is the only verdict kept under that id, the hearing's status is
  \<open>judged\<close>, and the case's status is \<open>decided\<close>.
\<close>

theorem saveVerdict_upsert:
  assumes "vs \<noteq> []"
      and "\<forall>v \<in> set vs. v_hearing_id v = hearingId"
      and "getHearing hearingId data = Some h"
      and "findCase (h_case_id h) data = Some c"
  shows "getVerdict hearingId (saveVerdicts vs data) = Some (last vs)
         \<and> filter (\<lambda>v. v_hearing_id v = hearingId) (verdicts (saveVerdicts vs data)) = [last vs]
         \<and> getHearing hearingId (saveVerdicts vs data) = Some (h\<lparr>h_status := judged\<rparr>)
         \<and> findCase (h_case_id h) (saveVerdicts vs data) = Some (c\<lparr>c_status := decided\<rparr>)"
proof -
  obtain ws w where vs: "vs = ws @ [w]"
    using assms(1) by (cases vs rule: rev_cases) auto
  have w: "v_hearing_id w = hearingId" using assms(2) by (simp add: vs)
  have "getVerdict hearingId (saveVerdicts vs data) = Some (last vs)"
    using getVerdict_saveVerdict [of w "saveVerdicts ws data"] w
    by (simp add: vs saveVerdicts_snoc)
  moreover have
    "filter (\<lambda>v. v_hearing_id v = hearingId) (verdicts (saveVerdicts vs data)) = [last vs]"
    using filter_verdicts_saveVerdict [of w "saveVerdicts ws data"] w
    by (simp add: vs saveVerdicts_snoc)
  moreover note saveVerdicts_hearing_case [OF assms(2,3,4)]
  ultimately show ?thesis using assms(1) by simp
qed

theorem saveVerdict_upsert_witness:
  "ex_verdict \<noteq> ex_verdict2
   \<and> getVerdict (ascii ''h1'') (saveVerdicts [ex_verdict, ex_verdict2, ex_verdict, ex_verdict2] ex_data)
       = Some ex_verdict2
   \<and> filter (\<lambda>v. v_hearing_id v = ascii ''h1'')
        (verdicts (saveVerdicts [ex_verdict, ex_verdict2, ex_verdict, ex_verdict2] ex_data))
       = [ex_verdict2]
   \<and> getHearing (ascii ''h1'') (saveVerdicts [ex_verdict, ex_verdict2, ex_verdict, ex_verdict2] ex_data)
       = Some (ex_hearing\<lparr>h_status := judged\<rparr>)
   \<and> findCase (ascii ''c1'') (saveVerdicts [ex_verdict, ex_verdict2, ex_verdict, ex_verdict2] ex_data)
       = Some (ex_accepted\<lparr>c_status := decided\<rparr>)"
proof -
  let ?vs = "[ex_verdict, ex_verdict2, ex_verdict, ex_verdict2]"
  let ?c = "ex_accepted\<lparr>c_status := pending_judgement\<rparr>"
  have 1: "?vs \<noteq> []" by simp
  have 2: "\<forall>v \<in> set ?vs. v_hearing_id v = ascii ''h1''"
    by (simp add: ex_verdict_def ex_verdict2_def)
  have 3: "getHearing (ascii ''h1'') ex_data = Some ex_hearing"
    by (simp add: getHearing_def ex_data_def ex_hearing_def)
  have 4: "findCase (h_case_id ex_hearing) ex_data = Some ?c"
    by (simp add: findCase_def ex_data_def ex_hearing_def ex_accepted_def ex_invited_def)
  have 5: "ex_verdict \<noteq> ex_verdict2"
  proof
    assume "ex_verdict = ex_verdict2"
    then have "v_created_at ex_verdict = v_created_at ex_verdict2" by simp
    then show False by (simp add: ex_verdict_def ex_verdict2_def)
  qed
  have 6: "h_case_id ex_hearing = ascii ''c1''" by (simp add: ex_hearing_def)
  show ?thesis
    using saveVerdict_upsert [OF 1 2 3 4] 5 by (simp add: 6)
qed

subsection \<open>Saving statements\<close>

lemma filter_neq_tagged: "\<forall>s \<in> set xs. k s = x \<Longrightarrow> filter (\<lambda>s. k s \<noteq> x) xs = []"
  by (induction xs) auto

text \<open>
  C8. Two sets of statements saved in turn under one hearing id, each statement carrying
  that id as all the callers make them: what is read back under the id is the second
  set, whole and alone, and what is read back under any other id is what was there
  before the two saves.
\<close>

theorem saveStatements_replaces:
  assumes "\<forall>s \<in> set first. s_hearing_id s = hearingId"
      and "\<forall>s \<in> set second. s_hearing_id s = hearingId"
  shows "getStatements hearingId
           (saveStatements hearingId second (saveStatements hearingId first data)) = second
         \<and> (\<forall>other. other \<noteq> hearingId \<longrightarrow>
              getStatements other
                (saveStatements hearingId second (saveStatements hearingId first data))
                = getStatements other data)"
proof -
  have a: "filter (\<lambda>s. s_hearing_id s = hearingId) second = second"
    using assms(2) by (simp add: filter_id_conv)
  have b: "\<And>other xs. other \<noteq> hearingId \<Longrightarrow> \<forall>s \<in> set xs. s_hearing_id s = hearingId
             \<Longrightarrow> filter (\<lambda>s. s_hearing_id s = other) xs = []"
    by (auto simp: filter_empty_conv)
  have c: "\<And>other. other \<noteq> hearingId \<Longrightarrow>
      filter (\<lambda>s. s_hearing_id s = other)
        (filter (\<lambda>s. s_hearing_id s \<noteq> hearingId) (statements data))
        = filter (\<lambda>s. s_hearing_id s = other) (statements data)"
    by (auto intro: filter_cong)
  show ?thesis
    using a c by (simp add: getStatements_def saveStatements_def filter_neq_tagged [OF assms(1)]
        filter_neq_tagged [OF assms(2)] b [OF _ assms(1)] b [OF _ assms(2)])
qed

theorem saveStatements_replaces_witness:
  "getStatements (ascii ''h1'')
     (saveStatements (ascii ''h1'') [ex_statementB]
        (saveStatements (ascii ''h1'') [ex_statementA, ex_statementB] ex_data))
     = [ex_statementB]
   \<and> getStatements (ascii ''h2'')
       (saveStatements (ascii ''h1'') [ex_statementB]
          (saveStatements (ascii ''h1'') [ex_statementA, ex_statementB] ex_data))
     = getStatements (ascii ''h2'') ex_data"
proof -
  have 1: "\<forall>s \<in> set [ex_statementA, ex_statementB]. s_hearing_id s = ascii ''h1''"
    by (simp add: ex_statementA_def ex_statementB_def)
  have 2: "\<forall>s \<in> set [ex_statementB]. s_hearing_id s = ascii ''h1''"
    by (simp add: ex_statementB_def)
  have 3: "ascii ''h2'' \<noteq> ascii ''h1''" by (simp add: ascii_def)
  show ?thesis
    using saveStatements_replaces [OF 1 2, of ex_data] 3 by blast
qed

subsection \<open>Creating a case\<close>

lemma set_Array_from_Set [simp]: "set (Array_from_Set xs) = set xs"
  by (induction xs rule: Array_from_Set.induct) auto

lemma distinct_Array_from_Set [simp]: "distinct (Array_from_Set xs)"
  by (induction xs rule: Array_from_Set.induct) auto

lemma createCase_fields:
  assumes "truthy (invitedUserId input)"
  shows "c_status (fst (createCase input new_id now data)) = pending_acceptance"
    and "c_acceptance (fst (createCase input new_id now data)) = Some acc_pending"
    and "c_created_at (fst (createCase input new_id now data)) = now"
    and "c_expires_at (fst (createCase input new_id now data)) = Some (now + 86400000)"
  using assms by (simp_all add: createCase_def Let_def)

lemma createCase_participants:
  "\<exists>ps. c_participant_ids (fst (createCase input new_id now data)) = Some ps \<and> distinct ps
        \<and> set ps = insert (ownerId input)
                     (set (case participantIds input of Some ids \<Rightarrow> ids | None \<Rightarrow> []))"
  by (auto simp: createCase_def Let_def split: option.splits)

lemma post_cases_invited_example:
  "post_cases ex_is_email (ascii ''u1'') ex_case_body (ascii ''c1'') 1000
       (empty_data\<lparr>users := ex_users\<rparr>)
     = (Inr ex_invited, empty_data\<lparr>users := ex_users, cases := [ex_invited]\<rparr>)"
  by (simp add: post_cases_def caseSchema_def optional_def ex_is_email_def ex_case_body_def
       findUserByEmail_def ex_users_def createCase_def Let_def empty_data_def ex_invited_def
       ascii_def)

lemma createCase_invited_example:
  "fst (createCase ex_input (ascii ''c1'') 1000 (empty_data\<lparr>users := ex_users\<rparr>)) = ex_invited"
  by (simp add: createCase_def Let_def ex_input_def ex_invited_def ascii_def)

text \<open>
  C1, as the claim states it, fails: \<open>POST /cases\<close> with the address of \<open>u2\<close> calls
  \<open>createCase\<close> with the invited user \<open>u2\<close>, and the case returned has the
  participants \<open>u1\<close> and \<open>u2\<close>, not the owner \<open>u1\<close> alone.
\<close>

theorem createCase_invited_counterexample:
  "post_cases ex_is_email (ascii ''u1'') ex_case_body (ascii ''c1'') 1000
       (empty_data\<lparr>users := ex_users\<rparr>)
     = (Inr ex_invited, empty_data\<lparr>users := ex_users, cases := [ex_invited]\<rparr>)
   \<and> fst (createCase ex_input (ascii ''c1'') 1000 (empty_data\<lparr>users := ex_users\<rparr>)) = ex_invited
   \<and> invitedUserId ex_input = Some (ascii ''u2'')
   \<and> c_acceptance ex_invited = Some acc_pending
   \<and> c_participant_ids ex_invited = Some [ascii ''u1'', ascii ''u2'']
   \<and> set [ascii ''u1'', ascii ''u2''] \<noteq> {ascii ''u1''}"
proof -
  have "invitedUserId ex_input = Some (ascii ''u2'')"
    by (simp add: ex_input_def)
  moreover have "c_acceptance ex_invited = Some acc_pending"
    and "c_participant_ids ex_invited = Some [ascii ''u1'', ascii ''u2'']"
    by (simp_all add: ex_invited_def)
  moreover have "set [ascii ''u1'', ascii ''u2''] \<noteq> {ascii ''u1''}"
    by (simp add: ascii_def)
  ultimately show ?thesis
    using post_cases_invited_example createCase_invited_example by simp
qed

text \<open>
  C1, amended. A case created with a non-empty invited user has status
  \<open>pending_acceptance\<close>, acceptance \<open>pending\<close>, an expiry 24 hours after its creation
  time, and as participants the owner and the participant ids passed to \<open>createCase\<close>,
  each once. \<open>POST /cases\<close> passes the invited user as the participant id, so the case
  it creates has the owner and the invited user as participants from its creation on.
\<close>

theorem createCase_invited:
  "(truthy (invitedUserId input) \<longrightarrow>
      c_status (fst (createCase input new_id now data)) = pending_acceptance
      \<and> c_acceptance (fst (createCase input new_id now data)) = Some acc_pending
      \<and> c_created_at (fst (createCase input new_id now data)) = now
      \<and> c_expires_at (fst (createCase input new_id now data)) = Some (now + 86400000)
      \<and> (\<exists>ps. c_participant_ids (fst (createCase input new_id now data)) = Some ps
               \<and> distinct ps
               \<and> set ps = insert (ownerId input)
                    (set (case participantIds input of Some ids \<Rightarrow> ids | None \<Rightarrow> []))))
   \<and> (caseSchema is_email body \<and> b_friend_email body = Some email \<and> email \<noteq> []
        \<and> findUserByEmail email data = Some friend \<and> u_id friend \<noteq> [] \<longrightarrow>
       (\<exists>c. post_cases is_email userId body new_id now data
               = (Inr c, data\<lparr>cases := cases data @ [c]\<rparr>)
            \<and> c_status c = pending_acceptance \<and> c_acceptance c = Some acc_pending
            \<and> c_created_at c = now \<and> c_expires_at c = Some (now + 86400000)
            \<and> c_invited_user_id c = Some (u_id friend)
            \<and> c_participant_ids c
                = Some (if u_id friend = userId then [userId] else [userId, u_id friend])
            \<and> assertParticipant (u_id friend) c))"
proof (intro conjI impI)
  assume h: "caseSchema is_email body \<and> b_friend_email body = Some email \<and> email \<noteq> []
        \<and> findUserByEmail email data = Some friend \<and> u_id friend \<noteq> []"
  then show "\<exists>c. post_cases is_email userId body new_id now data
               = (Inr c, data\<lparr>cases := cases data @ [c]\<rparr>)
            \<and> c_status c = pending_acceptance \<and> c_acceptance c = Some acc_pending
            \<and> c_created_at c = now \<and> c_expires_at c = Some (now + 86400000)
            \<and> c_invited_user_id c = Some (u_id friend)
            \<and> c_participant_ids c
                = Some (if u_id friend = userId then [userId] else [userId, u_id friend])
            \<and> assertParticipant (u_id friend) c"
    by (simp add: post_cases_def createCase_def Let_def assertParticipant_def includes_id_def)
next
  show "\<exists>ps. c_participant_ids (fst (createCase input new_id now data)) = Some ps
               \<and> distinct ps
               \<and> set ps = insert (ownerId input)
                    (set (case participantIds input of Some ids \<Rightarrow> ids | None \<Rightarrow> []))"
    by (rule createCase_participants)
qed (simp_all add: createCase_fields)

theorem createCase_invited_witness:
  "truthy (invitedUserId ex_input)
   \<and> c_status (fst (createCase ex_input (ascii ''c1'') 1000 (empty_data\<lparr>users := ex_users\<rparr>)))
       = pending_acceptance
   \<and> c_acceptance (fst (createCase ex_input (ascii ''c1'') 1000 (empty_data\<lparr>users := ex_users\<rparr>)))
       = Some acc_pending
   \<and> c_expires_at (fst (createCase ex_input (ascii ''c1'') 1000 (empty_data\<lparr>users := ex_users\<rparr>)))
       = Some 86401000
   \<and> (\<exists>c. post_cases ex_is_email (ascii ''u1'') ex_case_body (ascii ''c1'') 1000
              (empty_data\<lparr>users := ex_users\<rparr>)
            = (Inr c, empty_data\<lparr>users := ex_users, cases := [c]\<rparr>)
          \<and> c_status c = pending_acceptance
          \<and> c_participant_ids c = Some [ascii ''u1'', ascii ''u2'']
          \<and> assertParticipant (ascii ''u2'') c)"
proof -
  let ?d = "empty_data\<lparr>users := ex_users\<rparr>"
  let ?friend = "\<lparr>u_id = ascii ''u2'', u_email = ascii ''b@x.io'', u_name = ascii ''Bob'',
                  u_password = ascii ''h2'', u_friends = []\<rparr>"
  have 1: "truthy (invitedUserId ex_input)"
    by (simp add: ex_input_def ascii_def)
  have 2: "caseSchema ex_is_email ex_case_body \<and> b_friend_email ex_case_body = Some (ascii ''b@x.io'')
           \<and> ascii ''b@x.io'' \<noteq> [] \<and> findUserByEmail (ascii ''b@x.io'') ?d = Some ?friend
           \<and> u_id ?friend \<noteq> []"
    by (simp add: caseSchema_def optional_def ex_is_email_def ex_case_body_def
          findUserByEmail_def ex_users_def empty_data_def ascii_def)
  have 3: "u_id ?friend \<noteq> ascii ''u1''" by (simp add: ascii_def)
  have 4: "cases ?d = []" by (simp add: empty_data_def)
  note T = createCase_invited [of ex_input "ascii ''c1''" 1000 ?d ex_is_email ex_case_body
        "ascii ''b@x.io''" ?friend "ascii ''u1''"]
  from T 1 have a:
    "c_status (fst (createCase ex_input (ascii ''c1'') 1000 ?d)) = pending_acceptance
     \<and> c_acceptance (fst (createCase ex_input (ascii ''c1'') 1000 ?d)) = Some acc_pending
     \<and> c_expires_at (fst (createCase ex_input (ascii ''c1'') 1000 ?d)) = Some (1000 + 86400000)"
    by blast
  from T 2 obtain c where c:
    "post_cases ex_is_email (ascii ''u1'') ex_case_body (ascii ''c1'') 1000 ?d
       = (Inr c, ?d\<lparr>cases := cases ?d @ [c]\<rparr>)"
    "c_status c = pending_acceptance"
    "c_participant_ids c
       = Some (if u_id ?friend = ascii ''u1'' then [ascii ''u1''] else [ascii ''u1'', u_id ?friend])"
    "assertParticipant (u_id ?friend) c"
    by blast
  have "post_cases ex_is_email (ascii ''u1'') ex_case_body (ascii ''c1'') 1000 ?d
          = (Inr c, empty_data\<lparr>users := ex_users, cases := [c]\<rparr>)
        \<and> c_status c = pending_acceptance
        \<and> c_participant_ids c = Some [ascii ''u1'', ascii ''u2'']
        \<and> assertParticipant (ascii ''u2'') c"
    using c 3 by (simp add: 4)
  then show ?thesis using 1 a by auto
qed

text \<open>
  C3, as the claim states it, fails: a request with two parties of side A, and one with
  a single party, pass the schema and create the case with the parties as given.
\<close>

theorem post_cases_validation_counterexample:
  "fst (post_cases ex_is_email (ascii ''u1'') (ex_body_parties [party_A, party_A])
          (ascii ''c1'') 1000 empty_data)
     = Inr (ex_case_parties [party_A, party_A])
   \<and> fst (post_cases ex_is_email (ascii ''u1'') (ex_body_parties [party_A])
          (ascii ''c1'') 1000 empty_data)
     = Inr (ex_case_parties [party_A])"
  by (simp add: post_cases_def caseSchema_def optional_def partySchema_def is_side_def
        ex_body_parties_def ex_case_parties_def party_A_def createCase_def Let_def ascii_def)

text \<open>
  C3, amended. \<open>POST /cases\<close> answers with a validation error exactly when the topic is
  empty, or a party given has a side other than A and B, or the friend's address given is
  no e-mail address. Whenever it creates a case, the parties of the case are those of the
  request as given, whatever their number and sides among A and B, and the two default
  parties when the request gives none or an empty array.
\<close>

theorem post_cases_validation:
  "(fst (post_cases is_email userId body new_id now data) = Inl ValidationError \<longleftrightarrow>
      b_topic body = []
      \<or> (\<exists>ps. b_parties body = Some ps
              \<and> (\<exists>p \<in> set ps. p_side p \<noteq> ascii ''A'' \<and> p_side p \<noteq> ascii ''B''))
      \<or> (\<exists>e. b_friend_email body = Some e \<and> \<not> is_email e))
   \<and> (\<forall>c data'. post_cases is_email userId body new_id now data = (Inr c, data') \<longrightarrow>
         c_parties c = (case b_parties body of
                          Some ps \<Rightarrow> if ps = [] then default_parties else ps
                        | None \<Rightarrow> default_parties))"
proof (intro conjI allI impI)
  have "caseSchema is_email body \<longleftrightarrow> \<not> (b_topic body = []
      \<or> (\<exists>ps. b_parties body = Some ps
              \<and> (\<exists>p \<in> set ps. p_side p \<noteq> ascii ''A'' \<and> p_side p \<noteq> ascii ''B''))
      \<or> (\<exists>e. b_friend_email body = Some e \<and> \<not> is_email e))"
    by (cases "b_topic body")
       (auto simp: caseSchema_def optional_def partySchema_def is_side_def list_all_iff
             split: option.splits)
  moreover have "fst (post_cases is_email userId body new_id now data) = Inl ValidationError
        \<longleftrightarrow> \<not> caseSchema is_email body"
    by (auto simp: post_cases_def createCase_def Let_def split: option.splits prod.splits)
  ultimately show
    "fst (post_cases is_email userId body new_id now data) = Inl ValidationError \<longleftrightarrow>
      b_topic body = []
      \<or> (\<exists>ps. b_parties body = Some ps
              \<and> (\<exists>p \<in> set ps. p_side p \<noteq> ascii ''A'' \<and> p_side p \<noteq> ascii ''B''))
      \<or> (\<exists>e. b_friend_email body = Some e \<and> \<not> is_email e)"
    by blast
next
  fix c data'
  assume "post_cases is_email userId body new_id now data = (Inr c, data')"
  then show "c_parties c = (case b_parties body of
                          Some ps \<Rightarrow> if ps = [] then default_parties else ps
                        | None \<Rightarrow> default_parties)"
    by (auto simp: post_cases_def createCase_def Let_def split: option.splits prod.splits if_splits)
qed

theorem post_cases_validation_witness:
  "fst (post_cases ex_is_email (ascii ''u1'') (ex_case_body\<lparr>b_topic := []\<rparr>)
          (ascii ''c1'') 1000 empty_data) = Inl ValidationError
   \<and> fst (post_cases ex_is_email (ascii ''u1'')
          (ex_body_parties [party_A\<lparr>p_side := ascii ''C''\<rparr>]) (ascii ''c1'') 1000 empty_data)
       = Inl ValidationError
   \<and> fst (post_cases ex_is_email (ascii ''u1'') (ex_body_parties [party_A, party_A])
          (ascii ''c1'') 1000 empty_data) \<noteq> Inl ValidationError
   \<and> c_parties (ex_case_parties [party_A, party_A]) = [party_A, party_A]"
proof -
  let ?bad = "party_A\<lparr>p_side := ascii ''C''\<rparr>"
  have 1: "b_topic (ex_case_body\<lparr>b_topic := []\<rparr>) = []" by simp
  have 2: "b_parties (ex_body_parties [?bad]) = Some [?bad]
           \<and> (\<exists>p \<in> set [?bad]. p_side p \<noteq> ascii ''A'' \<and> p_side p \<noteq> ascii ''B'')"
    by (simp add: ex_body_parties_def ascii_def)
  have 3: "\<not> (b_topic (ex_body_parties [party_A, party_A]) = []
      \<or> (\<exists>ps. b_parties (ex_body_parties [party_A, party_A]) = Some ps
              \<and> (\<exists>p \<in> set ps. p_side p \<noteq> ascii ''A'' \<and> p_side p \<noteq> ascii ''B''))
      \<or> (\<exists>e. b_friend_email (ex_body_parties [party_A, party_A]) = Some e \<and> \<not> ex_is_email e))"
    by (simp add: ex_body_parties_def party_A_def ascii_def)
  have 4: "post_cases ex_is_email (ascii ''u1'') (ex_body_parties [party_A, party_A])
            (ascii ''c1'') 1000 empty_data
           = (Inr (ex_case_parties [party_A, party_A]),
              empty_data\<lparr>cases := [ex_case_parties [party_A, party_A]]\<rparr>)"
    by (simp add: post_cases_def caseSchema_def optional_def partySchema_def is_side_def
        ex_body_parties_def ex_case_parties_def party_A_def createCase_def Let_def
        empty_data_def ascii_def)
  have 5: "b_parties (ex_body_parties [party_A, party_A]) = Some [party_A, party_A]"
    by (simp add: ex_body_parties_def)
  have a: "fst (post_cases ex_is_email (ascii ''u1'') (ex_case_body\<lparr>b_topic := []\<rparr>)
          (ascii ''c1'') 1000 empty_data) = Inl ValidationError"
    using post_cases_validation [of ex_is_email "ascii ''u1''" "ex_case_body\<lparr>b_topic := []\<rparr>"
        "ascii ''c1''" 1000 empty_data] 1 by blast
  have b: "fst (post_cases ex_is_email (ascii ''u1'') (ex_body_parties [?bad])
          (ascii ''c1'') 1000 empty_data) = Inl ValidationError"
    using post_cases_validation [of ex_is_email "ascii ''u1''" "ex_body_parties [?bad]"
        "ascii ''c1''" 1000 empty_data] 2 by blast
  have c: "fst (post_cases ex_is_email (ascii ''u1'') (ex_body_parties [party_A, party_A])
          (ascii ''c1'') 1000 empty_data) \<noteq> Inl ValidationError"
    using post_cases_validation [of ex_is_email "ascii ''u1''"
        "ex_body_parties [party_A, party_A]" "ascii ''c1''" 1000 empty_data] 3 by blast
  have d: "c_parties (ex_case_parties [party_A, party_A]) = [party_A, party_A]"
    using post_cases_validation [of ex_is_email "ascii ''u1''"
        "ex_body_parties [party_A, party_A]" "ascii ''c1''" 1000 empty_data] 4 5 by simp
  from a b c d show ?thesis by blast
qed

subsection \<open>Rounds\<close>

lemma rounds_by_keys:
  "map h_round (listHearings cid data) = map snd (filter (\<lambda>k. fst k = cid) (round_keys data))"
  by (simp add: listHearings_def round_keys_def filter_map comp_def)

lemma length_by_keys:
  "length (listHearings cid data) = length (filter (\<lambda>k. fst k = cid) (round_keys data))"
  using arg_cong [OF rounds_by_keys, of length cid data] by simp

lemma rounds_in_sequence_keys:
  "round_keys data' = round_keys data \<Longrightarrow> rounds_in_sequence cid data' = rounds_in_sequence cid data"
  by (simp add: rounds_in_sequence_def rounds_by_keys length_by_keys)

lemma map_update_first:
  "(\<And>x. g (f x) = g x) \<Longrightarrow> map g (update_first p f xs) = map g xs"
  by (induction xs) auto

lemma round_keys_expireInvites [simp]: "round_keys (expireInvites now data) = round_keys data"
  by (simp add: round_keys_def expireInvites_def)

lemma round_keys_saveVerdict [simp]: "round_keys (saveVerdict v data) = round_keys data"
  by (simp add: round_keys_def saveVerdict_def Let_def map_update_first)

lemma round_keys_saveStatements [simp]: "round_keys (saveStatements hid sts data) = round_keys data"
  by (simp add: round_keys_def saveStatements_def)

lemma round_keys_saveEvidence [simp]: "round_keys (saveEvidence hid evs data) = round_keys data"
  by (simp add: round_keys_def saveEvidence_def)

lemma round_keys_createCase [simp]: "round_keys (snd (createCase input new_id now data)) = round_keys data"
  by (simp add: round_keys_def createCase_def Let_def)

lemma round_keys_acceptCase [simp]: "round_keys (snd (acceptCase caseId userId now data)) = round_keys data"
  by (simp add: round_keys_def acceptCase_def Let_def split: option.splits)

lemma round_keys_rejectCase [simp]: "round_keys (snd (rejectCase caseId userId data)) = round_keys data"
  by (simp add: round_keys_def rejectCase_def Let_def split: option.splits)

lemma round_keys_createHearing [simp]:
  "round_keys (snd (createHearing caseId rnd new_id now data)) = round_keys data @ [(caseId, rnd)]"
  by (simp add: round_keys_def createHearing_def Let_def)

lemma round_keys_cases_update [simp]: "round_keys (data\<lparr>cases := cs\<rparr>) = round_keys data"
  by (simp add: round_keys_def)

lemma round_keys_post_cases [simp]:
  "round_keys (snd (post_cases is_email userId body new_id now data)) = round_keys data"
  by (simp add: post_cases_def Let_def split: option.splits prod.splits)
     (metis round_keys_createCase snd_conv)+


lemma round_keys_get_case [simp]:
  "round_keys (snd (get_case caseId userId now data)) = round_keys data"
  by (simp add: get_case_def getCase_def Let_def split: option.splits)

lemma round_keys_get_cases [simp]:
  "round_keys (snd (get_cases userId now data)) = round_keys data"
  by (simp add: get_cases_def listCasesByUser_def Let_def)

lemma round_keys_post_accept [simp]:
  "round_keys (snd (post_accept caseId userId now data)) = round_keys data"
proof -
  have "snd (post_accept caseId userId now data) = snd (acceptCase caseId userId now data)"
    by (simp add: post_accept_def split: prod.splits sum.splits)
  then show ?thesis by simp
qed

lemma round_keys_post_reject [simp]:
  "round_keys (snd (post_reject caseId userId data)) = round_keys data"
proof -
  have "snd (post_reject caseId userId data) = snd (rejectCase caseId userId data)"
    by (simp add: post_reject_def split: prod.splits sum.splits)
  then show ?thesis by simp
qed

lemma round_keys_post_judge [simp]:
  "round_keys (snd (post_judge js caseId hearingId userId now data)) = round_keys data"
  by (simp add: post_judge_def getCase_def Let_def split: option.splits sum.splits)

lemma round_keys_get_verdict [simp]:
  "round_keys (snd (get_verdict caseId hearingId userId now data)) = round_keys data"
  by (simp add: get_verdict_def getCase_def Let_def split: option.splits)

lemma Math_max_snoc: "Math_max (xs @ [x]) = js_max2 (Math_max xs) x"
  by (simp add: Math_max_def)

lemma upt_1_Suc_Suc: "[1 ..< Suc (Suc n)] = [1 ..< Suc n] @ [Suc n]"
  by simp

lemma Math_max_sequence:
  "Math_max (map (\<lambda>i. Fin (of_nat i)) [1 ..< Suc n]) = (if n = 0 then NegInf else Fin (of_nat n))"
proof (induction n)
  case 0
  show ?case by (simp add: Math_max_def)
next
  case (Suc n)
  have "Math_max (map (\<lambda>i. Fin (of_nat i)) [1 ..< Suc (Suc n)])
          = js_max2 (Math_max (map (\<lambda>i. Fin (of_nat i)) [1 ..< Suc n])) (Fin (of_nat (Suc n)))"
    by (simp only: upt_1_Suc_Suc map_append list.map Math_max_snoc)
  also have "\<dots> = Fin (of_nat (Suc n))"
    unfolding Suc.IH by (cases "n = 0") (simp_all add: max_def)
  finally show ?case by simp
qed

lemma rounds_in_sequence_seq_keys: "rounds_in_sequence cid data = seq_keys cid (round_keys data)"
  by (simp add: rounds_in_sequence_def seq_keys_def rounds_by_keys length_by_keys)

lemma seq_keys_other: "caseId \<noteq> cid \<Longrightarrow> seq_keys cid (ks @ [(caseId, r)]) = seq_keys cid ks"
  by (simp add: seq_keys_def)

lemma seq_keys_next:
  assumes "seq_keys cid ks"
      and "r = (if filter (\<lambda>k. fst k = cid) ks = [] then Fin 1
                else js_plus (Math_max (map snd (filter (\<lambda>k. fst k = cid) ks))) (Fin 1))"
  shows "seq_keys cid (ks @ [(cid, r)])"
proof -
  let ?m = "filter (\<lambda>k. fst k = cid) ks"
  have m: "map snd ?m = map (\<lambda>i. Fin (of_nat i)) [1 ..< Suc (length ?m)]"
    using assms(1) by (simp add: seq_keys_def)
  have r: "r = Fin (of_nat (Suc (length ?m)))"
  proof (cases "?m = []")
    case True
    then show ?thesis using assms(2) by simp
  next
    case False
    then have "Math_max (map snd ?m) = Fin (of_nat (length ?m))"
      by (simp only: m Math_max_sequence) simp
    then show ?thesis using assms(2) False by (simp add: add.commute)
  qed
  show ?thesis
    unfolding seq_keys_def using m r by simp
qed


lemma findCase_id: "findCase caseId data = Some c \<Longrightarrow> c_id c = caseId"
  by (auto simp: findCase_def find_Some_iff)

lemma listHearings_expireInvites [simp]:
  "listHearings cid (expireInvites now data) = listHearings cid data"
  by (simp add: listHearings_def expireInvites_def)

lemma getHearing_listHearings:
  "getHearing hearingId data = Some h \<Longrightarrow> listHearings (h_case_id h) data \<noteq> []"
  by (auto simp: getHearing_def listHearings_def find_Some_iff filter_empty_conv)

lemma post_hearings_keys:
  "round_keys (snd (post_hearings caseId userId body new_id eids now data)) = round_keys data
   \<or> round_keys (snd (post_hearings caseId userId body new_id eids now data))
       = round_keys data @ [(caseId, case hb_round body of Some r \<Rightarrow> r
                                     | None \<Rightarrow> omitted_round caseId data)]"
proof (cases "findCase caseId (expireInvites now data)")
  case None
  then show ?thesis by (simp add: post_hearings_def getCase_def)
next
  case (Some caseItem)
  then have "c_id caseItem = caseId" by (rule findCase_id)
  with Some show ?thesis
    by (auto simp: post_hearings_def getCase_def Let_def omitted_round_def
             split: prod.splits option.splits)
       (metis round_keys_createHearing round_keys_expireInvites snd_conv)+
qed


lemma getHearing_expireInvites [simp]:
  "getHearing hid (expireInvites now data) = getHearing hid data"
  by (simp add: getHearing_def expireInvites_def)

lemma verdicts_expireInvites [simp]: "verdicts (expireInvites now data) = verdicts data"
  by (simp add: expireInvites_def)

lemma hearings_expireInvites [simp]: "hearings (expireInvites now data) = hearings data"
  by (simp add: expireInvites_def)

lemma findCase_expireInvites:
  "findCase caseId (expireInvites now data)
     = map_option (\<lambda>c. if c_acceptance c = Some acc_pending \<and> is_past (c_expires_at c) now
                         then expire c else c) (findCase caseId data)"
proof -
  have "find (\<lambda>c. c_id c = caseId) (map f xs) = map_option f (find (\<lambda>c. c_id c = caseId) xs)"
    if "\<And>c. c_id (f c) = c_id c" for f :: "Case \<Rightarrow> Case" and xs
    using that by (induction xs) auto
  then show ?thesis by (simp add: findCase_def expireInvites_def)
qed

lemma createHearing_parts:
  "hearings (snd (createHearing caseId rnd new_id now data))
     = hearings data @ [\<lparr>h_id = new_id, h_case_id = caseId, h_round = rnd,
                          h_status = submitted, h_created_at = now\<rparr>]"
  "verdicts (snd (createHearing caseId rnd new_id now data)) = verdicts data"
  "cases (snd (createHearing caseId rnd new_id now data))
     = update_first (\<lambda>c. c_id c = caseId) (\<lambda>c. c\<lparr>c_status := pending_judgement\<rparr>) (cases data)"
  "fst (createHearing caseId rnd new_id now data)
     = \<lparr>h_id = new_id, h_case_id = caseId, h_round = rnd,
        h_status = submitted, h_created_at = now\<rparr>"
  by (simp_all add: createHearing_def Let_def)

lemma post_appeal_success:
  assumes "findCase caseId data = Some c"
      and "assertParticipant userId c"
      and "getHearing hearingId data = Some h"
      and "h_case_id h = caseId"
      and "appealSchema body"
  shows "fst (post_appeal caseId hearingId userId body new_id eids now data) = Inl ReferenceError"
    and "hearings (snd (post_appeal caseId hearingId userId body new_id eids now data))
           = hearings data @ [\<lparr>h_id = new_id, h_case_id = caseId,
                                h_round = next_round (listHearings caseId data),
                                h_status = submitted, h_created_at = now\<rparr>]"
    and "verdicts (snd (post_appeal caseId hearingId userId body new_id eids now data))
           = verdicts data"
    and "\<exists>c'. findCase caseId (snd (post_appeal caseId hearingId userId body new_id eids now data))
                 = Some c' \<and> c_status c' = appealed"
proof -
  obtain c1 where c1: "findCase caseId (expireInvites now data) = Some c1"
    and p: "assertParticipant userId c1"
    using assms(1,2) by (auto simp: findCase_expireInvites assertParticipant_def)
  have id: "c_id c1 = caseId" using c1 by (rule findCase_id)
  note defs = post_appeal_def getCase_def Let_def createHearing_def saveStatements_def
    saveEvidence_def
  show "fst (post_appeal caseId hearingId userId body new_id eids now data) = Inl ReferenceError"
    using c1 p id assms(3,4,5) by (simp add: defs split: option.splits)
  show "hearings (snd (post_appeal caseId hearingId userId body new_id eids now data))
           = hearings data @ [\<lparr>h_id = new_id, h_case_id = caseId,
                                h_round = next_round (listHearings caseId data),
                                h_status = submitted, h_created_at = now\<rparr>]"
    using c1 p id assms(3,4,5) by (simp add: defs split: option.splits)
  show "verdicts (snd (post_appeal caseId hearingId userId body new_id eids now data))
           = verdicts data"
    using c1 p id assms(3,4,5) by (simp add: defs split: option.splits)
  have "findCase caseId (snd (post_appeal caseId hearingId userId body new_id eids now data))
          = Some (c1\<lparr>c_status := appealed\<rparr>)"
    using c1 p id assms(3,4,5)
    by (simp add: defs findCase_def find_update_first split: option.splits)
  then show "\<exists>c'. findCase caseId (snd (post_appeal caseId hearingId userId body new_id eids now data))
                 = Some c' \<and> c_status c' = appealed"
    by simp
qed

lemma post_appeal_keys:
  "round_keys (snd (post_appeal caseId hearingId userId body new_id eids now data)) = round_keys data
   \<or> (listHearings caseId data \<noteq> []
      \<and> round_keys (snd (post_appeal caseId hearingId userId body new_id eids now data))
           = round_keys data @ [(caseId, next_round (listHearings caseId data))])"
proof (cases "findCase caseId (expireInvites now data)")
  case None
  then show ?thesis by (simp add: post_appeal_def getCase_def)
next
  case (Some caseItem)
  then have id: "c_id caseItem = caseId" by (rule findCase_id)
  show ?thesis
  proof (cases "getHearing hearingId data")
    case None
    with Some show ?thesis by (simp add: post_appeal_def getCase_def)
  next
    case h: (Some hearing)
    show ?thesis
    proof (cases "assertParticipant userId caseItem \<and> h_case_id hearing = caseId \<and> appealSchema body")
      case False
      with Some h id show ?thesis by (auto simp: post_appeal_def getCase_def)
    next
      case True
      then have ne: "listHearings caseId data \<noteq> []"
        using getHearing_listHearings [OF h] by simp
      have "round_keys (snd (post_appeal caseId hearingId userId body new_id eids now data))
           = round_keys data @ [(caseId, next_round (listHearings caseId data))]"
        using Some h id True
        by (simp add: post_appeal_def getCase_def Let_def createHearing_def round_keys_def
              saveStatements_def saveEvidence_def split: prod.splits option.splits)
      with ne show ?thesis by simp
    qed
  qed
qed


lemma handle_rounds:
  assumes "rounds_in_sequence cid data" and "\<not> explicit_round cid r"
  shows "rounds_in_sequence cid (handle is_email js r data)"
proof -
  obtain req now where r: "r = (req, now)" by (cases r)
  have same: "rounds_in_sequence cid data'" if "round_keys data' = round_keys data" for data'
    using rounds_in_sequence_keys [OF that, of cid] assms(1) by simp
  have seq: "seq_keys cid (round_keys data)"
    using assms(1) by (simp add: rounds_in_sequence_seq_keys)
  have omitted: "seq_keys cid (round_keys data @ [(caseId, omitted_round caseId data)])" for caseId
  proof (cases "caseId = cid")
    case True
    have e: "(listHearings cid data = []) = (filter (\<lambda>k. fst k = cid) (round_keys data) = [])"
      using length_by_keys [of cid data] by (metis length_0_conv)
    show ?thesis unfolding True
      by (rule seq_keys_next [OF seq])
         (simp add: omitted_round_def next_round_def rounds_by_keys e)
  next
    case False
    then show ?thesis using seq by (simp add: seq_keys_other)
  qed
  show ?thesis
  proof (cases req)
    case (PostHearings caseId userId body new_id eids)
    show ?thesis
    proof (cases "hb_round body")
      case None
      then show ?thesis
        using post_hearings_keys [of caseId userId body new_id eids now data] same omitted [of caseId]
        by (auto simp: r PostHearings rounds_in_sequence_seq_keys)
    next
      case (Some rnd)
      then have "caseId \<noteq> cid" using assms(2) by (simp add: r PostHearings)
      then show ?thesis
        using post_hearings_keys [of caseId userId body new_id eids now data] same seq Some
        by (auto simp: r PostHearings rounds_in_sequence_seq_keys seq_keys_other)
    qed
  next
    case (PostAppeal caseId hearingId userId body new_id eids)
    have "omitted_round caseId data = next_round (listHearings caseId data)"
      if "listHearings caseId data \<noteq> []"
      using that by (simp add: omitted_round_def)
    then show ?thesis
      using post_appeal_keys [of caseId hearingId userId body new_id eids now data] same
        omitted [of caseId]
      by (auto simp: r PostAppeal rounds_in_sequence_seq_keys)
  qed (simp_all add: r same)
qed

lemma serve_rounds:
  assumes "rounds_in_sequence cid data" and "\<forall>r \<in> set reqs. \<not> explicit_round cid r"
  shows "rounds_in_sequence cid (serve is_email js reqs data)"
  using assms
proof (induction reqs arbitrary: data)
  case Nil
  then show ?case by (simp add: serve_def)
next
  case (Cons r reqs)
  have "rounds_in_sequence cid (handle is_email js r data)"
    using Cons.prems by (simp add: handle_rounds)
  then have "rounds_in_sequence cid (serve is_email js reqs (handle is_email js r data))"
    using Cons by simp
  then show ?case by (simp add: serve_def)
qed

lemma post_hearings_omitted:
  assumes "hb_round body = None"
      and "post_hearings caseId userId body new_id eids now data = (Inr hg, data')"
  shows "h_round hg = omitted_round caseId data"
proof (cases "findCase caseId (expireInvites now data)")
  case None
  then show ?thesis using assms(2) by (simp add: post_hearings_def getCase_def)
next
  case (Some caseItem)
  then have "c_id caseItem = caseId" by (rule findCase_id)
  with Some show ?thesis
    using assms
    by (auto simp: post_hearings_def getCase_def Let_def omitted_round_def createHearing_def
             split: if_splits)
qed


text \<open>
  C2 does not hold of the code. An appeal by a participant of the case, on a hearing of
  the data that belongs to the case, with a body that passes the schema, never answers
  with the new hearing: after it has added a hearing of that case with status
  \<open>submitted\<close> to the data and assigned the status \<open>appealed\<close> to the cached case,
  with the verdicts as they were, the handler calls \<open>updateCase\<close>, which does not
  exist, and the request ends in a \<open>ReferenceError\<close>, answered 500, with no save of
  the new status.
\<close>

theorem post_appeal_throws:
  assumes "findCase caseId data = Some c"
      and "assertParticipant userId c"
      and "getHearing hearingId data = Some h"
      and "h_case_id h = caseId"
      and "appealSchema body"
  shows "fst (post_appeal caseId hearingId userId body new_id eids now data) = Inl ReferenceError
         \<and> status_code ReferenceError = 500
         \<and> (\<exists>hg. hearings (snd (post_appeal caseId hearingId userId body new_id eids now data))
                    = hearings data @ [hg]
                  \<and> h_id hg = new_id \<and> h_case_id hg = caseId \<and> h_status hg = submitted)
         \<and> (\<exists>c'. findCase caseId (snd (post_appeal caseId hearingId userId body new_id eids now data))
                    = Some c' \<and> c_status c' = appealed)
         \<and> (\<forall>hid. getVerdict hid (snd (post_appeal caseId hearingId userId body new_id eids now data))
                    = getVerdict hid data)"
proof -
  have "\<forall>hid. getVerdict hid (snd (post_appeal caseId hearingId userId body new_id eids now data))
                    = getVerdict hid data"
    by (simp add: getVerdict_def post_appeal_success(3) [OF assms])
  then show ?thesis
    using post_appeal_success(1,2,4) [OF assms] by simp
qed

theorem post_appeal_throws_witness:
  "post_appeal (ascii ''c1'') (ascii ''h1'') (ascii ''u2'')
       \<lparr>ab_statements = None, ab_evidence = None\<rparr> (ascii ''h2'') (\<lambda>i. ascii ''e'')
       5000 (saveVerdict ex_verdict ex_data)
     = (Inl ReferenceError,
        \<lparr>users = ex_users, cases = [ex_accepted\<lparr>c_status := appealed\<rparr>],
         hearings = [ex_hearing\<lparr>h_status := judged\<rparr>,
                     \<lparr>h_id = ascii ''h2'', h_case_id = ascii ''c1'', h_round = Fin 2,
                      h_status = submitted, h_created_at = 5000\<rparr>],
         statements = [ex_statementA, ex_statementB], evidence = [],
         verdicts = [ex_verdict]\<rparr>)
   \<and> status_code ReferenceError = 500"
proof -
  let ?data = "saveVerdict ex_verdict ex_data"
  let ?body = "\<lparr>ab_statements = None, ab_evidence = None\<rparr>"
  let ?c = "ex_accepted\<lparr>c_status := decided\<rparr>"
  let ?h = "ex_hearing\<lparr>h_status := judged\<rparr>"
  have hs: "hearings ?data = [?h]"
    by (simp add: saveVerdict_def Let_def ex_data_def ex_verdict_def ex_hearing_def)
  have 1: "findCase (ascii ''c1'') ?data = Some ?c"
    by (simp add: findCase_def saveVerdict_def Let_def ex_data_def ex_verdict_def ex_hearing_def
          ex_accepted_def ex_invited_def)
  have 2: "assertParticipant (ascii ''u2'') ?c"
    by (simp add: assertParticipant_def includes_id_def ex_accepted_def ex_invited_def)
  have 3: "getHearing (ascii ''h1'') ?data = Some ?h"
    by (simp add: getHearing_def hs ex_hearing_def)
  have 4: "h_case_id ?h = ascii ''c1''" by (simp add: ex_hearing_def)
  have 5: "appealSchema ?body" by (simp add: appealSchema_def optional_def)
  note T = post_appeal_throws [OF 1 2 3 4 5, of "ascii ''h2''" "\<lambda>i. ascii ''e''" 5000]
  have r: "fst (post_appeal (ascii ''c1'') (ascii ''h1'') (ascii ''u2'') ?body (ascii ''h2'')
                  (\<lambda>i. ascii ''e'') 5000 ?data) = Inl ReferenceError"
    using T by blast
  have d: "snd (post_appeal (ascii ''c1'') (ascii ''h1'') (ascii ''u2'') ?body (ascii ''h2'')
                  (\<lambda>i. ascii ''e'') 5000 ?data)
           = \<lparr>users = ex_users, cases = [ex_accepted\<lparr>c_status := appealed\<rparr>],
              hearings = [ex_hearing\<lparr>h_status := judged\<rparr>,
                          \<lparr>h_id = ascii ''h2'', h_case_id = ascii ''c1'', h_round = Fin 2,
                           h_status = submitted, h_created_at = 5000\<rparr>],
              statements = [ex_statementA, ex_statementB], evidence = [],
              verdicts = [ex_verdict]\<rparr>"
    by (simp add: post_appeal_def getCase_def findCase_def expireInvites_def is_past_def
          assertParticipant_def includes_id_def appealSchema_def optional_def getHearing_def
          listHearings_def createHearing_def next_round_def Math_max_def saveVerdict_def
          ex_data_def ex_verdict_def ex_hearing_def ex_accepted_def ex_invited_def Let_def)
  from r d show ?thesis by (simp add: prod_eq_iff)
qed

text \<open>
  C5. From data in which the rounds of the hearings of a case are 1, 2, 3, ... in the
  order of their creation, as they are when the case has no hearing, any sequence of
  requests in which no submission to that case names a round leaves them so. A
  submission that names no round gives its hearing the round 1 when the case has no
  hearing and \<open>Math.max\<close> of the rounds plus 1 otherwise, which is the number of the
  case's hearings plus 1 when the rounds are in sequence.
\<close>

theorem rounds_in_sequence_preserved:
  "(rounds_in_sequence cid data \<and> (\<forall>r \<in> set reqs. \<not> explicit_round cid r) \<longrightarrow>
      rounds_in_sequence cid (serve is_email js reqs data))
   \<and> (listHearings cid data = [] \<longrightarrow> rounds_in_sequence cid data)
   \<and> (hb_round body = None
        \<and> post_hearings caseId userId body new_id eids now data = (Inr hg, data') \<longrightarrow>
      h_round hg = (if listHearings caseId data = [] then Fin 1
                    else next_round (listHearings caseId data)))
   \<and> (rounds_in_sequence cid data \<longrightarrow>
      omitted_round cid data = Fin (of_nat (length (listHearings cid data)) + 1))"
proof (intro conjI impI)
  assume "rounds_in_sequence cid data \<and> (\<forall>r \<in> set reqs. \<not> explicit_round cid r)"
  then show "rounds_in_sequence cid (serve is_email js reqs data)"
    by (simp add: serve_rounds)
next
  assume "listHearings cid data = []"
  then show "rounds_in_sequence cid data"
    by (simp add: rounds_in_sequence_def)
next
  assume "hb_round body = None
        \<and> post_hearings caseId userId body new_id eids now data = (Inr hg, data')"
  then show "h_round hg = (if listHearings caseId data = [] then Fin 1
                    else next_round (listHearings caseId data))"
    using post_hearings_omitted [of body caseId userId new_id eids now data hg data']
    by (simp add: omitted_round_def)
next
  assume s: "rounds_in_sequence cid data"
  show "omitted_round cid data = Fin (of_nat (length (listHearings cid data)) + 1)"
  proof (cases "listHearings cid data = []")
    case True
    then show ?thesis by (simp add: omitted_round_def)
  next
    case False
    have "Math_max (map h_round (listHearings cid data))
            = Fin (of_nat (length (listHearings cid data)))"
      using s False unfolding rounds_in_sequence_def
      by (simp only: Math_max_sequence) simp
    then show ?thesis using False by (simp add: omitted_round_def next_round_def)
  qed
qed

theorem rounds_in_sequence_preserved_witness:
  "map h_round (listHearings (ascii ''c1'')
     (serve ex_is_email ex_judge ex_requests (empty_data\<lparr>users := ex_users, cases := [ex_accepted]\<rparr>)))
   = [Fin 1, Fin 2, Fin 3]"
proof -
  let ?data = "empty_data\<lparr>users := ex_users, cases := [ex_accepted]\<rparr>"
  let ?final = "serve ex_is_email ex_judge ex_requests ?data"
  have 1: "listHearings (ascii ''c1'') ?data = []"
    by (simp add: listHearings_def empty_data_def)
  have 2: "\<forall>r \<in> set ex_requests. \<not> explicit_round (ascii ''c1'') r"
    by (simp add: ex_requests_def)
  note T = rounds_in_sequence_preserved [of "ascii ''c1''" ?data ex_requests ex_is_email ex_judge]
  from T 1 have "rounds_in_sequence (ascii ''c1'') ?data" by blast
  with T 2 have s: "rounds_in_sequence (ascii ''c1'') ?final" by blast
  have 3: "length (listHearings (ascii ''c1'') ?final) = 3"
    by (simp add: serve_def ex_requests_def post_hearings_def post_judge_def post_appeal_def
          getCase_def findCase_def expireInvites_def is_past_def assertParticipant_def
          includes_id_def hearingSchema_def appealSchema_def statementSchema_def is_side_def
          optional_def ex_statement_inputs_def listHearings_def getHearing_def
          createHearing_def saveStatements_def saveEvidence_def with_ids_def
          ex_judge_def judge_def saveVerdict_def defaultVerdict_def getStatements_def
          getEvidence_def next_round_def Math_max_def empty_data_def ex_accepted_def
          ex_invited_def Let_def ascii_def)
  from s show ?thesis
    unfolding rounds_in_sequence_def 3 by (simp add: upt_rec)
qed

subsection \<open>The mock verdict\<close>

lemma split_ws_nonempty: "split_ws s \<noteq> []"
  by (induction s rule: split_ws.induct) (auto split: list.splits)

lemma foldl_add_sum_list:
  "foldl (\<lambda>acc x. acc + f x) a xs = a + sum_list (map f xs)"
  for f :: "'a \<Rightarrow> nat"
  by (induction xs arbitrary: a) simp_all

lemma words_sum: "words sts = sum_list (map (\<lambda>s. length (split_ws (s_narrative s))) sts)"
  by (simp add: words_def foldl_add_sum_list)

lemma words_filter_le: "words (filter P sts) \<le> words sts"
  unfolding words_sum by (induction sts) auto

lemma Math_round_bounds:
  assumes "0 \<le> x" and "x \<le> 100"
  shows "0 \<le> Math_round x" and "Math_round x \<le> 100"
proof -
  have "0 \<le> \<lfloor>x + 1 / 2\<rfloor>" using assms(1) by simp
  then show "0 \<le> Math_round x" by (simp add: Math_round_def)
  have "x + 1 / 2 < 101" using assms(2) by simp
  then have "\<lfloor>x + 1 / 2\<rfloor> < 101" by (simp add: floor_less_iff)
  then have "\<lfloor>x + 1 / 2\<rfloor> \<le> 100" by simp
  then have "(of_int \<lfloor>x + 1 / 2\<rfloor> :: rat) \<le> of_int 100" by (simp only: of_int_le_iff)
  then show "Math_round x \<le> 100" by (simp add: Math_round_def)
qed

lemma share_bounds:
  fixes a t :: rat
  assumes "0 < a" and "a \<le> t"
  shows "0 \<le> a / t * 100" and "a / t * 100 \<le> 100"
proof -
  have t: "0 < t" using assms by simp
  show "0 \<le> a / t * 100" using assms t by simp
  have "a / t \<le> 1" using assms t by simp
  then have "a / t * 100 \<le> 1 * 100" by (rule mult_right_mono) simp
  then show "a / t * 100 \<le> 100" by simp
qed

text \<open>
  C10. Whatever its input, the mock verdict has a share of A and a share of B between 0
  and 100 that add up to 100, and the confidence 0.3.
\<close>

theorem defaultVerdict_score:
  "in_range 0 100 (partyA_pct (v_score (defaultVerdict input now)))
   \<and> in_range 0 100 (partyB_pct (v_score (defaultVerdict input now)))
   \<and> js_plus (partyA_pct (v_score (defaultVerdict input now)))
             (partyB_pct (v_score (defaultVerdict input now))) = Fin 100
   \<and> confidence (v_score (defaultVerdict input now)) = Fin (3 / 10)"
proof -
  let ?n = "words (j_statements input)"
  let ?m = "words (filter (\<lambda>s. s_side s = ascii ''A'') (j_statements input))"
  define t :: rat where "t = (if ?n = 0 then 1 else of_nat ?n)"
  define a :: rat where "a = (if ?m = 0 then t / 2 else of_nat ?m)"
  define pA where "pA = Math_round (a / t * 100)"
  have t: "0 < t" by (simp add: t_def)
  have "?m \<le> ?n" by (rule words_filter_le)
  then have a: "0 < a" "a \<le> t"
    using t by (auto simp: a_def t_def)
  have b: "0 \<le> pA" "pA \<le> 100"
    unfolding pA_def using Math_round_bounds share_bounds [OF a] by blast+
  have s: "v_score (defaultVerdict input now)
             = \<lparr>partyA_pct = Fin pA, partyB_pct = Fin (100 - pA), confidence = Fin (3 / 10)\<rparr>"
    by (simp add: defaultVerdict_def Let_def pA_def a_def t_def)
  show ?thesis using b by (simp add: s)
qed

lemma floor_half: "\<lfloor>(1::rat) / 2\<rfloor> = 0"
  by (rule floor_unique) simp_all

theorem defaultVerdict_score_witness:
  "partyA_pct (v_score (defaultVerdict ex_judge_input 3000)) = Fin 60
   \<and> partyB_pct (v_score (defaultVerdict ex_judge_input 3000)) = Fin 40
   \<and> in_range 0 100 (partyA_pct (v_score (defaultVerdict ex_judge_input 3000)))
   \<and> in_range 0 100 (partyB_pct (v_score (defaultVerdict ex_judge_input 3000)))
   \<and> js_plus (partyA_pct (v_score (defaultVerdict ex_judge_input 3000)))
             (partyB_pct (v_score (defaultVerdict ex_judge_input 3000))) = Fin 100
   \<and> confidence (v_score (defaultVerdict ex_judge_input 3000)) = Fin (3 / 10)"
proof -
  have w: "words [ex_statementA, ex_statementB] = 5" "words [ex_statementA] = 3"
    by (simp_all add: words_def ex_statementA_def ex_statementB_def ascii_def is_ws_def)
  have "partyA_pct (v_score (defaultVerdict ex_judge_input 3000)) = Fin 60"
    by (simp add: defaultVerdict_def ex_judge_input_def Let_def w Math_round_def floor_half)
       (simp add: ex_statementA_def ex_statementB_def ascii_def w Math_round_def floor_half)
  moreover have "partyB_pct (v_score (defaultVerdict ex_judge_input 3000)) = Fin 40"
    by (simp add: defaultVerdict_def ex_judge_input_def Let_def w Math_round_def floor_half)
       (simp add: ex_statementA_def ex_statementB_def ascii_def w Math_round_def floor_half)
  ultimately show ?thesis
    using defaultVerdict_score [of ex_judge_input 3000] by simp
qed

subsection \<open>The verdict of a parsed response\<close>

lemma clamp_in_range:
  "lo \<le> hi \<Longrightarrow> n \<noteq> NaN \<Longrightarrow> in_range lo hi (clamp lo hi n)"
  by (cases n) (auto simp: clamp_def)

lemma clamp_NaN: "clamp lo hi NaN = NaN"
  by (simp add: clamp_def)

lemma verdict_of_parsed_numbers:
  "map_sum id v_score (verdict_of_parsed prim ex_parsed_numbers hearingId completion now)
     = Inr \<lparr>partyA_pct = Fin 100, partyB_pct = Fin 0, confidence = Fin 0\<rparr>"
  by (simp add: verdict_of_parsed_def ex_parsed_numbers_def clamped_def clamp_def Let_def
        ascii_def)

lemma verdict_of_parsed_defaults:
  "verdict_of_parsed prim (JObj []) hearingId completion now
     = Inr \<lparr>v_hearing_id = hearingId,
            v_score = \<lparr>partyA_pct = Fin 0, partyB_pct = Fin 0, confidence = Fin 0\<rparr>,
            v_summary = JStr [],
            v_reasoning = \<lparr>facts = JStr [], fairness_checks = JArr [],
                           emotion_considerations = JStr [], assumptions = JArr [],
                           missing_info = JArr []\<rparr>,
            v_advice = \<lparr>together = JArr [], forA = JArr [], forB = JArr []\<rparr>,
            v_raw_agent_payload = Some completion,
            v_created_at = now\<rparr>"
  by (simp add: verdict_of_parsed_def clamped_def clamp_def Let_def)

text \<open>
  C6 does not hold of the code. The response
  \<open>{"score": {"partyA_pct": {"value": 60}, "partyB_pct": 40, "confidence": 0.9}, "summary": 42}\<close>
  gives a verdict whose share of A is \<open>NaN\<close>, which is not between 0 and 100, and
  whose summary is the number 42, not a string; the response
  \<open>{"score": {"partyA_pct": {"toString": 60}, "partyB_pct": 40}}\<close> and the response
  \<open>null\<close> make the function throw. Whatever the runtime's conversion of strings is.
\<close>

theorem verdict_of_parsed_not_clamped:
  "map_sum id (\<lambda>v. (partyA_pct (v_score v), v_summary v))
       (verdict_of_parsed prim ex_parsed_object hearingId completion now)
     = Inr (NaN, JNum (Fin 42))
   \<and> \<not> in_range 0 100 NaN
   \<and> verdict_of_parsed prim ex_parsed_toString hearingId completion now = Inl TypeError
   \<and> verdict_of_parsed prim JNull hearingId completion now = Inl TypeError"
  by (simp add: verdict_of_parsed_def ex_parsed_object_def ex_parsed_toString_def clamped_def
        clamp_def Let_def ascii_def)

end
